theory Spec2Isabelle
  imports Main "HOL-Library.Char_ord" "HOL-Library.List_Lexorder" "HOL-Library.Sublist"
    "HOL-Library.Multiset"
begin

section \<open>Python values used by \<^verbatim>\<open>main.py\<close>\<close>

text \<open>
  The plugin is one Python file. Its functions are embedded as HOL functions over an
  explicit description of what the process sees of its surroundings (home directory,
  file system, XML documents, the regular-expression library). A Python \<^verbatim>\<open>str\<close> is a
  \<^typ>\<open>string\<close>, read as its UTF-8 bytes; the order of strings is the lexicographic order
  of the bytes, which on UTF-8 is Python's order of code points. Exceptions are values:
  a function that can raise returns \<open>py_error + 'a\<close>, with \<open>Inl\<close> the exception.
\<close>

datatype py_error = OSError | RuntimeError | ValueError | KeyError | LookupError | Re_error

subsection \<open>\<^verbatim>\<open>str.split\<close>, \<^verbatim>\<open>str.replace\<close>, \<^verbatim>\<open>str.join\<close>\<close>

text \<open>\<^verbatim>\<open>s.split(c)\<close> for a one-character separator: never empty, one more field than
  separators.\<close>

fun split_sep :: "char \<Rightarrow> string \<Rightarrow> string list" where
  "split_sep c [] = [[]]"
| "split_sep c (x # xs) =
     (if x = c then [] # split_sep c xs
      else (case split_sep c xs of
              [] \<Rightarrow> [[x]]
            | p # ps \<Rightarrow> (x # p) # ps))"

text \<open>\<^verbatim>\<open>sep.join(xs)\<close>.\<close>

fun join_sep :: "string \<Rightarrow> string list \<Rightarrow> string" where
  "join_sep sep [] = []"
| "join_sep sep [x] = x"
| "join_sep sep (x # y # ys) = x @ sep @ join_sep sep (y # ys)"

text \<open>\<^verbatim>\<open>s.replace(old, new)\<close>: the occurrences of \<open>old\<close> are found from the left and do
  not overlap; an empty \<open>old\<close> matches before every character and at the end.\<close>

function replace_str :: "string \<Rightarrow> string \<Rightarrow> string \<Rightarrow> string" where
  "replace_str old new s =
     (if old = [] then new @ concat (map (\<lambda>c. c # new) s)
      else if s = [] then []
      else if prefix old s then new @ replace_str old new (drop (length old) s)
      else hd s # replace_str old new (tl s))"
  by pat_completeness auto
termination
  by (relation "measure (\<lambda>(old, new, s). length s)") auto

declare replace_str.simps [simp del]

subsection \<open>\<^verbatim>\<open>int(str)\<close>\<close>

text \<open>
  \<^verbatim>\<open>int(s)\<close> in base 10 on a string. A string that is not all ASCII is first rewritten
  character by character: a character below 127 stays, a Unicode white-space character
  becomes a space, a Unicode decimal digit becomes the ASCII digit of its value, and
  any other character becomes a question mark. Then white space is stripped at both
  ends (the six white-space characters of C), and what remains must be an optional
  sign and a non-empty run of decimal digits in which single underscores may stand
  between two digits. Anything else raises \<^verbatim>\<open>ValueError\<close>, and so does a literal of more
  than 4300 digits (the interpreter's default \<^verbatim>\<open>int_max_str_digits\<close>). The rewriting does
  not change a string that is all ASCII, up to the character 127, which is refused
  either way. The decimal digits are those of Unicode 14.0, the version of Python 3.11:
  66 runs of ten characters, given by the code points of their zeros.
\<close>

text \<open>The code points of a string, which is their UTF-8 encoding; a byte that does
  not start a well-formed sequence gives the replacement character.\<close>

definition continuation :: "char \<Rightarrow> bool" where
  "continuation c = (let b = (of_char c :: nat) in 128 \<le> b \<and> b < 192)"

fun utf8_decode :: "string \<Rightarrow> nat list" where
  "utf8_decode [] = []"
| "utf8_decode [c] = [if (of_char c :: nat) < 128 then of_char c else 65533]"
| "utf8_decode [c, c1] =
     (let b = (of_char c :: nat) in
      if b < 128 then b # utf8_decode [c1]
      else if 194 \<le> b \<and> b < 224 \<and> continuation c1
      then [(b - 192) * 64 + (of_char c1 - 128)]
      else 65533 # utf8_decode [c1])"
| "utf8_decode [c, c1, c2] =
     (let b = (of_char c :: nat) in
      if b < 128 then b # utf8_decode [c1, c2]
      else if 194 \<le> b \<and> b < 224 \<and> continuation c1
      then ((b - 192) * 64 + (of_char c1 - 128)) # utf8_decode [c2]
      else if 224 \<le> b \<and> b < 240 \<and> continuation c1 \<and> continuation c2
      then [(b - 224) * 4096 + (of_char c1 - 128) * 64 + (of_char c2 - 128)]
      else 65533 # utf8_decode [c1, c2])"
| "utf8_decode (c # c1 # c2 # c3 # cs) =
     (let b = (of_char c :: nat) in
      if b < 128 then b # utf8_decode (c1 # c2 # c3 # cs)
      else if 194 \<le> b \<and> b < 224 \<and> continuation c1
      then ((b - 192) * 64 + (of_char c1 - 128)) # utf8_decode (c2 # c3 # cs)
      else if 224 \<le> b \<and> b < 240 \<and> continuation c1 \<and> continuation c2
      then ((b - 224) * 4096 + (of_char c1 - 128) * 64 + (of_char c2 - 128))
             # utf8_decode (c3 # cs)
      else if 240 \<le> b \<and> b < 245 \<and> continuation c1 \<and> continuation c2 \<and> continuation c3
      then ((b - 240) * 262144 + (of_char c1 - 128) * 4096 + (of_char c2 - 128) * 64
              + (of_char c3 - 128)) # utf8_decode cs
      else 65533 # utf8_decode (c1 # c2 # c3 # cs))"

text \<open>The white-space characters from 127 on (\<^verbatim>\<open>str.isspace\<close>).\<close>

definition unicode_space :: "nat \<Rightarrow> bool" where
  "unicode_space cp =
     (cp = 133 \<or> cp = 160 \<or> cp = 5760 \<or> (8192 \<le> cp \<and> cp \<le> 8202) \<or> cp = 8232 \<or> cp = 8233
      \<or> cp = 8239 \<or> cp = 8287 \<or> cp = 12288)"

definition decimal_zeros :: "nat list" where
  "decimal_zeros =
     [48, 1632, 1776, 1984, 2406, 2534, 2662, 2790, 2918, 3046, 3174, 3302, 3430, 3558, 3664,
      3792, 3872, 4160, 4240, 6112, 6160, 6470, 6608, 6784, 6800, 6992, 7088, 7232, 7248,
      42528, 43216, 43264, 43472, 43504, 43600, 44016, 65296, 66720, 68912, 69734, 69872,
      69942, 70096, 70384, 70736, 70864, 71248, 71360, 71472, 71904, 72016, 72784, 73040,
      73120, 92768, 92864, 93008, 120782, 120792, 120802, 120812, 120822, 123200, 123632,
      125264, 130032]"

definition to_ascii :: "nat \<Rightarrow> char" where
  "to_ascii cp =
     (if cp < 127 then char_of cp
      else if unicode_space cp then CHR '' ''
      else (case List.find (\<lambda>z. z \<le> cp \<and> cp < z + 10) decimal_zeros of
              None \<Rightarrow> CHR ''?''
            | Some z \<Rightarrow> char_of (48 + (cp - z))))"

definition is_space :: "char \<Rightarrow> bool" where
  "is_space c = (let n = (of_char c :: nat) in n = 32 \<or> (9 \<le> n \<and> n \<le> 13))"

definition is_digit :: "char \<Rightarrow> bool" where
  "is_digit c = (let n = (of_char c :: nat) in 48 \<le> n \<and> n \<le> 57)"

definition digit_val :: "char \<Rightarrow> int" where
  "digit_val c = int (of_char c) - 48"

definition strip :: "string \<Rightarrow> string" where
  "strip s = rev (dropWhile is_space (rev (dropWhile is_space s)))"

text \<open>The digits of a literal, underscores removed, or \<open>None\<close> when an underscore
  is leading, trailing or doubled, or a character is neither.\<close>

fun digits_of :: "string \<Rightarrow> string option" where
  "digits_of [] = None"
| "digits_of [c] = (if is_digit c then Some [c] else None)"
| "digits_of (c # d # ds) =
     (if is_digit c then
        (if d = CHR ''_'' then map_option ((#) c) (digits_of ds)
         else map_option ((#) c) (digits_of (d # ds)))
      else None)"

definition decimal :: "string \<Rightarrow> int" where
  "decimal ds = foldl (\<lambda>acc c. 10 * acc + digit_val c) 0 ds"

definition int_max_str_digits :: nat where
  "int_max_str_digits = 4300"

definition py_int :: "string \<Rightarrow> py_error + int" where
  "py_int s =
     (let t = strip (map to_ascii (utf8_decode s));
          neg = (t \<noteq> [] \<and> hd t = CHR ''-'');
          body = (if t \<noteq> [] \<and> (hd t = CHR ''-'' \<or> hd t = CHR ''+'') then tl t else t)
      in case digits_of body of
           None \<Rightarrow> Inl ValueError
         | Some ds \<Rightarrow>
             if length ds > int_max_str_digits then Inl ValueError
             else Inr (if neg then - decimal ds else decimal ds))"

subsection \<open>\<^verbatim>\<open>pathlib.Path\<close> on POSIX\<close>

text \<open>
  A path is its root (\<^verbatim>\<open>""\<close>, \<^verbatim>\<open>"/"\<close>, or \<^verbatim>\<open>"//"\<close> for exactly two leading slashes) and its
  parts: the fields between slashes, the empty ones and the \<^verbatim>\<open>"."\<close> ones dropped. This
  is what \<^verbatim>\<open>Path(s)\<close> keeps of \<open>s\<close>, and all that \<^verbatim>\<open>str\<close>, \<^verbatim>\<open>name\<close>, \<^verbatim>\<open>/\<close> and the
  comparison of paths read.
\<close>

datatype Path = Path (root: string) (parts: "string list")

definition path_root :: "string \<Rightarrow> string" where
  "path_root s =
     (if take 1 s \<noteq> ''/'' then ''''
      else if take 2 s = ''//'' \<and> take 3 s \<noteq> ''///'' then ''//''
      else ''/'')"

definition Path_of :: "string \<Rightarrow> Path" where
  "Path_of s = Path (path_root s) (filter (\<lambda>x. x \<noteq> [] \<and> x \<noteq> ''.'') (split_sep CHR ''/'' s))"

definition path_str :: "Path \<Rightarrow> string" where
  "path_str p = (if root p = [] \<and> parts p = [] then ''.'' else root p @ join_sep ''/'' (parts p))"

definition path_name :: "Path \<Rightarrow> string" where
  "path_name p = (if parts p = [] then [] else last (parts p))"

text \<open>\<^verbatim>\<open>p / q\<close>: an absolute right operand replaces the left one.\<close>

definition path_join :: "Path \<Rightarrow> Path \<Rightarrow> Path" where
  "path_join p q = (if root q \<noteq> [] then q else Path (root p) (parts p @ parts q))"

text \<open>The key by which two paths are compared (\<^verbatim>\<open>__lt__\<close>): the root, when there is
  one, followed by the parts, as a list of strings.\<close>

definition path_key :: "Path \<Rightarrow> string list" where
  "path_key p = (if root p = [] then parts p else root p # parts p)"

subsection \<open>\<^verbatim>\<open>xml.etree.ElementTree\<close>\<close>

text \<open>
  An element is its tag, its attributes and its children in document order; text is
  not read by the plugin. The attributes are a dictionary, kept as an association list
  (a well-formed document has no attribute twice).
\<close>

datatype element = Element (tag: string) (attrib: "(string \<times> string) list") (children: "element list")

text \<open>\<^verbatim>\<open>elem.get(key)\<close>.\<close>

definition get :: "element \<Rightarrow> string \<Rightarrow> string option" where
  "get e k = map_of (attrib e) k"

text \<open>\<^verbatim>\<open>elem.iter()\<close>: the element, then its subtree, in document order.\<close>

fun iter :: "element \<Rightarrow> element list" where
  "iter (Element t a cs) = Element t a cs # concat (map iter cs)"

text \<open>The step \<^verbatim>\<open>//tag\<close> of a path: the elements of that tag strictly below \<open>e\<close>.\<close>

definition descendants :: "element \<Rightarrow> string \<Rightarrow> element list" where
  "descendants e t = filter (\<lambda>d. tag d = t) (concat (map iter (children e)))"

text \<open>
  \<^verbatim>\<open>root.findall(".//component[@name='RecentProjectsManager']//entry[@key]")\<close>: the
  steps are applied one after the other to the list of elements selected so far, and
  nothing removes an element that is reached twice.
\<close>

definition findall_entries :: "element \<Rightarrow> element list" where
  "findall_entries r =
     concat (map (\<lambda>c. filter (\<lambda>e. get e ''key'' \<noteq> None) (descendants c ''entry''))
       (filter (\<lambda>c. get c ''name'' = Some ''RecentProjectsManager'') (descendants r ''component'')))"

text \<open>\<^verbatim>\<open>entry.find(".//option[@name='projectOpenTimestamp']")\<close>: the first one, or
  \<^verbatim>\<open>None\<close>.\<close>

definition find_timestamp :: "element \<Rightarrow> element option" where
  "find_timestamp e =
     (case filter (\<lambda>t. get t ''name'' = Some ''projectOpenTimestamp'') (descendants e ''option'') of
        [] \<Rightarrow> None
      | t # _ \<Rightarrow> Some t)"

text \<open>What \<^verbatim>\<open>ElementTree.parse(file)\<close> does: it returns the tree, or raises
  \<^verbatim>\<open>FileNotFoundError\<close>, \<^verbatim>\<open>ParseError\<close> (also for an empty file), another
  \<^verbatim>\<open>OSError\<close> (a directory, a file that may not be read), \<^verbatim>\<open>LookupError\<close> (a
  document that declares an encoding that Python does not know), or \<^verbatim>\<open>ValueError\<close> (a
  document that declares a multi-byte encoding, which the parser does not support).\<close>

datatype et_result =
  Tree element | No_such_file | Not_well_formed | Unreadable | Unknown_encoding
  | Unsupported_encoding

section \<open>The surroundings of the process\<close>

text \<open>
  Everything the plugin reads from outside is a field of \<open>world\<close>; a path is looked up
  by its string.
  \<^item> \<open>home_dir\<close>: the user's home directory (\<^verbatim>\<open>os.path.expanduser("~")\<close>); the process is
    assumed to have one.
  \<^item> \<open>user_home\<close>: the home directory of a user named in \<^verbatim>\<open>~name\<close>, if there is such a user.
  \<^item> \<open>platform\<close>: \<^verbatim>\<open>sys.platform\<close>.
  \<^item> \<open>plugin_dir\<close>: the directory of \<^verbatim>\<open>main.py\<close>.
  \<^item> \<open>is_file\<close>, \<open>path_exists\<close>: \<^verbatim>\<open>Path.is_file()\<close> and \<^verbatim>\<open>Path.exists()\<close>. They answer,
    or they raise \<^verbatim>\<open>OSError\<close>, which is the value \<open>None\<close>: a path that does not exist
    is answered \<^verbatim>\<open>False\<close>, but a name that is too long or a directory that may not be
    searched makes \<^verbatim>\<open>stat\<close> fail with an error that \<^verbatim>\<open>pathlib\<close> lets through.
  \<^item> \<open>subdirs\<close>: the names of the sub-directories of a directory, in the order the
    system lists them; empty when the directory cannot be listed. The listing under the
    home directory is taken to answer.
  \<^item> \<open>et_parse\<close>: \<^verbatim>\<open>ElementTree.parse\<close>.
  \<^item> \<open>re_valid\<close>, \<open>re_found\<close>: the \<^verbatim>\<open>re\<close> module with \<^verbatim>\<open>re.IGNORECASE\<close>: whether a
    pattern compiles, and whether a compiled pattern is found somewhere in a string.
\<close>

record world =
  home_dir :: string
  user_home :: "string \<Rightarrow> string option"
  platform :: string
  plugin_dir :: string
  is_file :: "string \<Rightarrow> bool option"
  path_exists :: "string \<Rightarrow> bool option"
  subdirs :: "string \<Rightarrow> string list"
  et_parse :: "string \<Rightarrow> et_result"
  re_valid :: "string \<Rightarrow> bool"
  re_found :: "string \<Rightarrow> string \<Rightarrow> bool"

text \<open>\<^verbatim>\<open>Path.home()\<close>.\<close>

definition home :: "world \<Rightarrow> Path" where
  "home w = Path_of (home_dir w)"

text \<open>\<^verbatim>\<open>os.path.expanduser\<close> on one path component that starts with a tilde: unchanged
  when the user is unknown, else the home directory without its trailing slashes.\<close>

definition os_expanduser :: "world \<Rightarrow> string \<Rightarrow> string" where
  "os_expanduser w t =
     (case (if t = ''~'' then Some (home_dir w) else user_home w (tl t)) of
        None \<Rightarrow> t
      | Some h \<Rightarrow>
          (let r = rev (dropWhile (\<lambda>c. c = CHR ''/'') (rev h)) in if r = [] then ''/'' else r))"

text \<open>\<^verbatim>\<open>Path.expanduser()\<close>: only a relative path whose first part starts with a tilde is
  changed; it raises \<^verbatim>\<open>RuntimeError\<close> when the home directory cannot be determined.\<close>

definition expanduser :: "world \<Rightarrow> Path \<Rightarrow> py_error + Path" where
  "expanduser w p =
     (case parts p of
        [] \<Rightarrow> Inr p
      | t # ts \<Rightarrow>
          if root p = [] \<and> take 1 t = ''~'' then
            (let homedir = os_expanduser w t in
             if take 1 homedir = ''~'' then Inl RuntimeError
             else Inr (Path (root (Path_of homedir)) (parts (Path_of homedir) @ ts)))
          else Inr p)"

text \<open>\<^verbatim>\<open>re.search(pattern, string, re.IGNORECASE)\<close>, as a truth value: the pattern is
  compiled first, and a pattern that does not compile raises \<^verbatim>\<open>re.error\<close>. (For a
  repetition count beyond the limit of the engine the exception is \<^verbatim>\<open>OverflowError\<close>,
  for groups nested too deeply it is \<^verbatim>\<open>RecursionError\<close>; \<open>Re_error\<close> stands for the
  exception of the compilation, whichever it is.)\<close>

definition re_search :: "world \<Rightarrow> string \<Rightarrow> string \<Rightarrow> py_error + bool" where
  "re_search w pattern s = (if re_valid w pattern then Inr (re_found w pattern s) else Inl Re_error)"

text \<open>
  \<^verbatim>\<open>dir.glob(prefix + "*/")\<close> for a relative prefix without wildcard characters, as
  all prefixes of the plugin are: the pattern's parts but the last name a directory
  below \<open>dir\<close>, the last part is a name prefix followed by the star, and the final slash
  keeps directories only. The result is in the order of the listing.
\<close>

definition glob_prefix :: "world \<Rightarrow> Path \<Rightarrow> string \<Rightarrow> Path list" where
  "glob_prefix w dir pre =
     (let ps = parts (Path_of (pre @ ''*''));
          parent = Path (root dir) (parts dir @ butlast ps);
          stem = butlast (last ps)
      in map (\<lambda>n. Path (root parent) (parts parent @ [n]))
           (filter (prefix stem) (subdirs w (path_str parent))))"

section \<open>The plugin\<close>

subsection \<open>\<^verbatim>\<open>Project\<close> and \<^verbatim>\<open>Editor\<close>\<close>

record Project =
  name :: string
  path :: string
  last_opened :: int

record Editor =
  name :: string
  icon :: Path
  config_dir_prefix :: string
  binary :: "string option"

text \<open>\<^verbatim>\<open>Editor._find_binary\<close>: the candidates are tried in the order of the list, and
  the first that is a regular file is returned as the string of its expanded path. An
  exception of \<^verbatim>\<open>expanduser\<close> or of \<^verbatim>\<open>is_file\<close> ends the loop.\<close>

fun find_binary :: "world \<Rightarrow> string \<Rightarrow> string list \<Rightarrow> py_error + string option" where
  "find_binary w binaries_path [] = Inr None"
| "find_binary w binaries_path (b # bs) =
     (case expanduser w (Path_of (binaries_path @ ''/'' @ b)) of
        Inl err \<Rightarrow> Inl err
      | Inr p \<Rightarrow>
          (case is_file w (path_str p) of
             None \<Rightarrow> Inl OSError
           | Some True \<Rightarrow> Inr (Some (path_str p))
           | Some False \<Rightarrow> find_binary w binaries_path bs))"

text \<open>\<^verbatim>\<open>Editor.__init__\<close>.\<close>

definition Editor_init ::
  "world \<Rightarrow> string \<Rightarrow> Path \<Rightarrow> string \<Rightarrow> string \<Rightarrow> string list \<Rightarrow> py_error + Editor" where
  "Editor_init w nm ic pre binaries_path binaries =
     (case find_binary w binaries_path binaries of
        Inl err \<Rightarrow> Inl err
      | Inr b \<Rightarrow> Inr \<lparr>Editor.name = nm, icon = ic, config_dir_prefix = pre, binary = b\<rparr>)"

text \<open>The body of the loop of \<^verbatim>\<open>Editor._parse_recent_projects\<close>: what one entry appends
  to \<^verbatim>\<open>projects\<close>.\<close>

definition project_of_entry :: "world \<Rightarrow> element \<Rightarrow> py_error + Project list" where
  "project_of_entry w entry =
     (case get entry ''key'' of
        None \<Rightarrow> Inl KeyError
      | Some k \<Rightarrow>
          (let project_path = replace_str ''$USER_HOME$'' (path_str (home w)) k;
               tag_opened = find_timestamp entry;
               last_opened = (case tag_opened of None \<Rightarrow> None | Some t \<Rightarrow> get t ''value'')
           in case last_opened of
                None \<Rightarrow> Inr []
              | Some v \<Rightarrow>
                  if project_path \<noteq> [] \<and> v \<noteq> [] then
                    (case py_int v of
                       Inl err \<Rightarrow> Inl err
                     | Inr n \<Rightarrow>
                         Inr [\<lparr>Project.name = path_name (Path_of project_path),
                               path = project_path, last_opened = n\<rparr>])
                  else Inr []))"

text \<open>The loop: the entries in their order; the first exception ends it.\<close>

fun parse_entries :: "world \<Rightarrow> element list \<Rightarrow> py_error + Project list" where
  "parse_entries w [] = Inr []"
| "parse_entries w (entry # entries) =
     (case project_of_entry w entry of
        Inl err \<Rightarrow> Inl err
      | Inr ps \<Rightarrow>
          (case parse_entries w entries of
             Inl err \<Rightarrow> Inl err
           | Inr qs \<Rightarrow> Inr (ps @ qs)))"

text \<open>\<^verbatim>\<open>Editor._parse_recent_projects\<close>: \<^verbatim>\<open>ParseError\<close> and \<^verbatim>\<open>FileNotFoundError\<close> are
  caught, whatever else is raised inside \<^verbatim>\<open>try\<close> leaves the function.\<close>

definition parse_recent_projects :: "world \<Rightarrow> Path \<Rightarrow> py_error + Project list" where
  "parse_recent_projects w recent_projects_file =
     (case et_parse w (path_str recent_projects_file) of
        Tree r \<Rightarrow> parse_entries w (findall_entries r)
      | No_such_file \<Rightarrow> Inr []
      | Not_well_formed \<Rightarrow> Inr []
      | Unreadable \<Rightarrow> Inl OSError
      | Unknown_encoding \<Rightarrow> Inl LookupError
      | Unsupported_encoding \<Rightarrow> Inl ValueError)"

text \<open>\<^verbatim>\<open>Editor.list_projects\<close>. \<^verbatim>\<open>sorted\<close> is stable and compares paths, and
  \<^verbatim>\<open>[-1]\<close> of a non-empty list is its last element.\<close>

definition config_dir :: "world \<Rightarrow> Path" where
  "config_dir w =
     (if platform w = ''darwin''
      then path_join (path_join (home w) (Path_of ''Library'')) (Path_of ''Application Support'')
      else path_join (home w) (Path_of ''.config''))"

definition list_projects :: "world \<Rightarrow> Editor \<Rightarrow> py_error + Project list" where
  "list_projects w e =
     (let dirs = glob_prefix w (config_dir w) (config_dir_prefix e) in
      if dirs = [] then Inr []
      else
        (let latest = last (sort_key path_key dirs) in
         parse_recent_projects w
           (path_join (path_join latest (Path_of ''options'')) (Path_of ''recentProjects.xml''))))"

subsection \<open>\<^verbatim>\<open>KeywordQueryEventListener\<close>\<close>

record preferences =
  binaries :: string
  item_limit :: string

record KeywordQueryEventListener =
  preferences :: preferences
  editors :: "Editor list"

text \<open>The arguments of the twelve \<^verbatim>\<open>Editor(...)\<close> calls of \<^verbatim>\<open>__init__\<close>, in their
  order: name, icon file, prefix of the configuration directories, names of the binary.\<close>

definition registry :: "(string \<times> string \<times> string \<times> string list) list" where
  "registry =
    [(''Android Studio'', ''androidstudio.svg'', ''Google/AndroidStudio'',
        [''studio'', ''androidstudio'', ''android-studio'', ''android-studio-canary'',
         ''jdk-android-studio'', ''android-studio-system-jdk'']),
     (''CLion'', ''clion.svg'', ''JetBrains/CLion'', [''clion'', ''clion-eap'']),
     (''DataGrip'', ''datagrip.svg'', ''JetBrains/DataGrip'', [''datagrip'', ''datagrip-eap'']),
     (''DataSpell'', ''dataspell.svg'', ''JetBrains/DataSpell'', [''dataspell'', ''dataspell-eap'']),
     (''GoLand'', ''goland.svg'', ''JetBrains/GoLand'', [''goland'', ''goland-eap'']),
     (''IntelliJ IDEA'', ''idea.svg'', ''JetBrains/IntelliJIdea'',
        [''idea'', ''idea.sh'', ''idea-ultimate'', ''idea-ce-eap'', ''idea-ue-eap'',
         ''intellij-idea-ce'', ''intellij-idea-ce-eap'', ''intellij-idea-ue-bundled-jre'',
         ''intellij-idea-ultimate-edition'', ''intellij-idea-community-edition-jre'',
         ''intellij-idea-community-edition-no-jre'']),
     (''PhpStorm'', ''phpstorm.svg'', ''JetBrains/PhpStorm'', [''phpstorm'', ''phpstorm-eap'']),
     (''PyCharm'', ''pycharm.svg'', ''JetBrains/PyCharm'', [''charm'', ''pycharm'', ''pycharm-eap'']),
     (''Rider'', ''rider.svg'', ''JetBrains/Rider'', [''rider'', ''rider-eap'']),
     (''RubyMine'', ''rubymine.svg'', ''JetBrains/RubyMine'',
        [''rubymine'', ''rubymine-eap'', ''jetbrains-rubymine'', ''jetbrains-rubymine-eap'']),
     (''WebStorm'', ''webstorm.svg'', ''JetBrains/WebStorm'', [''webstorm'', ''webstorm-eap'']),
     (''RustRover'', ''rustrover.svg'', ''JetBrains/RustRover'', [''rustrover'', ''rustrover-eap''])]"

text \<open>The list \<^verbatim>\<open>editors\<close> of \<^verbatim>\<open>__init__\<close> is built from left to right; an exception in one
  constructor ends it.\<close>

fun make_editors ::
  "world \<Rightarrow> string \<Rightarrow> (string \<times> string \<times> string \<times> string list) list \<Rightarrow> py_error + Editor list" where
  "make_editors w binaries_path [] = Inr []"
| "make_editors w binaries_path ((nm, ic, pre, bins) # rest) =
     (case Editor_init w nm
             (path_join (path_join (Path_of (plugin_dir w)) (Path_of ''images'')) (Path_of ic))
             pre binaries_path bins of
        Inl err \<Rightarrow> Inl err
      | Inr e \<Rightarrow>
          (case make_editors w binaries_path rest of
             Inl err \<Rightarrow> Inl err
           | Inr es \<Rightarrow> Inr (e # es)))"

text \<open>\<^verbatim>\<open>KeywordQueryEventListener.__init__\<close>.\<close>

definition init :: "world \<Rightarrow> preferences \<Rightarrow> py_error + KeywordQueryEventListener" where
  "init w prefs =
     (case make_editors w (binaries prefs) registry of
        Inl err \<Rightarrow> Inl err
      | Inr es \<Rightarrow> Inr \<lparr>preferences = prefs, editors = filter (\<lambda>e. binary e \<noteq> None) es\<rparr>)"

text \<open>The second comprehension of the loop of \<^verbatim>\<open>on_event\<close>: \<^verbatim>\<open>re.search\<close> is called
  once per project, so that a pattern is compiled only when there is a project.\<close>

fun filter_search :: "world \<Rightarrow> string \<Rightarrow> Project list \<Rightarrow> py_error + Project list" where
  "filter_search w query [] = Inr []"
| "filter_search w query (p # ps) =
     (case re_search w query (Project.name p) of
        Inl err \<Rightarrow> Inl err
      | Inr b \<Rightarrow>
          (case filter_search w query ps of
             Inl err \<Rightarrow> Inl err
           | Inr qs \<Rightarrow> Inr (if b then p # qs else qs)))"

text \<open>The first comprehension of the loop: the projects whose path exists.
  \<^verbatim>\<open>exists\<close> is called on every project of the list, in its order, and an exception
  of it ends the comprehension.\<close>

fun filter_exists :: "world \<Rightarrow> Project list \<Rightarrow> py_error + Project list" where
  "filter_exists w [] = Inr []"
| "filter_exists w (p # ps) =
     (case path_exists w (path_str (Path_of (path p))) of
        None \<Rightarrow> Inl OSError
      | Some b \<Rightarrow>
          (case filter_exists w ps of
             Inl err \<Rightarrow> Inl err
           | Inr qs \<Rightarrow> Inr (if b then p # qs else qs)))"

text \<open>One round of the loop over \<^verbatim>\<open>self.editors\<close>: the pairs it appends.\<close>

definition scan :: "world \<Rightarrow> string \<Rightarrow> Editor \<Rightarrow> py_error + (Editor \<times> Project) list" where
  "scan w query e =
     (case list_projects w e of
        Inl err \<Rightarrow> Inl err
      | Inr projects \<Rightarrow>
          (case filter_exists w projects of
             Inl err \<Rightarrow> Inl err
           | Inr present \<Rightarrow>
               (case filter_search w query present of
                  Inl err \<Rightarrow> Inl err
                | Inr found \<Rightarrow> Inr (map (Pair e) found))))"

text \<open>The loop: \<^verbatim>\<open>editor_project_pairs\<close> after it.\<close>

fun collect :: "world \<Rightarrow> string \<Rightarrow> Editor list \<Rightarrow> py_error + (Editor \<times> Project) list" where
  "collect w query [] = Inr []"
| "collect w query (e # es) =
     (case scan w query e of
        Inl err \<Rightarrow> Inl err
      | Inr ps \<Rightarrow>
          (case collect w query es of
             Inl err \<Rightarrow> Inl err
           | Inr qs \<Rightarrow> Inr (ps @ qs)))"

text \<open>\<^verbatim>\<open>pairs.sort(key=lambda pair: pair[1].last_opened, reverse=True)\<close>: descending and
  stable, which is the stable ascending sort by the negated key.\<close>

definition sort_pairs :: "(Editor \<times> Project) list \<Rightarrow> (Editor \<times> Project) list" where
  "sort_pairs pairs = sort_key (\<lambda>pair. - last_opened (snd pair)) pairs"

text \<open>\<^verbatim>\<open>xs[:n]\<close>: a negative \<open>n\<close> counts from the end.\<close>

definition slice_to :: "int \<Rightarrow> 'a list \<Rightarrow> 'a list" where
  "slice_to n xs = (if n < 0 then take (nat (int (length xs) + n)) xs else take (nat n) xs)"

text \<open>Lines 171 to 179 of \<^verbatim>\<open>on_event\<close>: the pairs that are rendered.\<close>

definition ranked ::
  "world \<Rightarrow> KeywordQueryEventListener \<Rightarrow> string \<Rightarrow> py_error + (Editor \<times> Project) list" where
  "ranked w self query =
     (case collect w query (editors self) of
        Inl err \<Rightarrow> Inl err
      | Inr pairs \<Rightarrow>
          (case py_int (item_limit (preferences self)) of
             Inl err \<Rightarrow> Inl err
           | Inr n \<Rightarrow> Inr (slice_to n (sort_pairs pairs))))"

record ExtensionResultItem =
  name :: string
  description :: string
  icon :: string
  on_enter :: string

text \<open>\<^verbatim>\<open>on_event\<close>: one item per pair, \<^verbatim>\<open>on_enter\<close> being the script that is run. Only
  editors with a binary are in \<^verbatim>\<open>self.editors\<close>; for \<^verbatim>\<open>None\<close> Python would print
  \<^verbatim>\<open>None\<close>.\<close>

definition render :: "Editor \<times> Project \<Rightarrow> ExtensionResultItem" where
  "render pair =
     \<lparr>ExtensionResultItem.name = Project.name (snd pair),
      description = path (snd pair),
      icon = path_str (Editor.icon (fst pair)),
      on_enter = (case binary (fst pair) of None \<Rightarrow> ''None'' | Some b \<Rightarrow> b) @ '' '' @ path (snd pair)\<rparr>"

definition on_event ::
  "world \<Rightarrow> KeywordQueryEventListener \<Rightarrow> string \<Rightarrow> py_error + ExtensionResultItem list" where
  "on_event w self query =
     (case ranked w self query of
        Inl err \<Rightarrow> Inl err
      | Inr pairs \<Rightarrow> Inr (map render pairs))"

section \<open>Notions used in the statements\<close>

text \<open>The key of an entry with the placeholder replaced by the home directory; empty
  for an element without a key.\<close>

definition resolved_path :: "world \<Rightarrow> element \<Rightarrow> string" where
  "resolved_path w e =
     (case get e ''key'' of
        None \<Rightarrow> []
      | Some k \<Rightarrow> replace_str ''$USER_HOME$'' (path_str (home w)) k)"

text \<open>The value attribute of the first option named \<^verbatim>\<open>projectOpenTimestamp\<close> below an
  entry.\<close>

definition timestamp_value :: "element \<Rightarrow> string option" where
  "timestamp_value e = (case find_timestamp e of None \<Rightarrow> None | Some t \<Rightarrow> get t ''value'')"

text \<open>An entry is kept when its resolved path and that value are both non-empty.\<close>

definition emits :: "world \<Rightarrow> element \<Rightarrow> bool" where
  "emits w e =
     (resolved_path w e \<noteq> [] \<and> (case timestamp_value e of None \<Rightarrow> False | Some v \<Rightarrow> v \<noteq> []))"

text \<open>The directory in which the configuration directories of an editor are looked for,
  the name prefix they must have, and the names that the listing has of them.\<close>

definition config_parent :: "world \<Rightarrow> Editor \<Rightarrow> Path" where
  "config_parent w e =
     Path (root (config_dir w))
       (parts (config_dir w) @ butlast (parts (Path_of (config_dir_prefix e @ ''*''))))"

definition config_stem :: "Editor \<Rightarrow> string" where
  "config_stem e = butlast (last (parts (Path_of (config_dir_prefix e @ ''*''))))"

definition candidate_names :: "world \<Rightarrow> Editor \<Rightarrow> string list" where
  "candidate_names w e =
     filter (prefix (config_stem e)) (subdirs w (path_str (config_parent w e)))"

text \<open>The history file of the configuration directory of a given name.\<close>

definition history_file :: "world \<Rightarrow> Editor \<Rightarrow> string \<Rightarrow> Path" where
  "history_file w e n =
     path_join
       (path_join (Path (root (config_parent w e)) (parts (config_parent w e) @ [n]))
          (Path_of ''options''))
       (Path_of ''recentProjects.xml'')"

text \<open>The path that \<^verbatim>\<open>_find_binary\<close> tests for a candidate name.\<close>

definition candidate :: "world \<Rightarrow> string \<Rightarrow> string \<Rightarrow> py_error + Path" where
  "candidate w binaries_path b = expanduser w (Path_of (binaries_path @ ''/'' @ b))"

text \<open>The projects of a list whose path is answered to exist.\<close>

definition existing :: "world \<Rightarrow> Project list \<Rightarrow> Project list" where
  "existing w projects =
     filter (\<lambda>p. path_exists w (path_str (Path_of (path p))) = Some True) projects"

text \<open>What the test of a candidate name answers, \<open>None\<close> when \<^verbatim>\<open>expanduser\<close> or
  \<^verbatim>\<open>is_file\<close> raises, and the string of the path that is tested.\<close>

definition is_binary :: "world \<Rightarrow> string \<Rightarrow> string \<Rightarrow> bool option" where
  "is_binary w binaries_path b =
     (case candidate w binaries_path b of Inl err \<Rightarrow> None | Inr p \<Rightarrow> is_file w (path_str p))"

definition binary_path :: "world \<Rightarrow> string \<Rightarrow> string \<Rightarrow> string" where
  "binary_path w binaries_path b =
     (case candidate w binaries_path b of Inl err \<Rightarrow> [] | Inr p \<Rightarrow> path_str p)"

text \<open>Whether the loop of \<^verbatim>\<open>on_event\<close> gets to call \<^verbatim>\<open>re.search\<close>: an editor has a
  project that exists, and nothing raised before: not the parser or \<^verbatim>\<open>exists\<close> for an
  editor before it, and not \<^verbatim>\<open>exists\<close> for another project of its own history.\<close>

fun reaches_filter :: "world \<Rightarrow> Editor list \<Rightarrow> bool" where
  "reaches_filter w [] = False"
| "reaches_filter w (e # es) =
     (case list_projects w e of
        Inl err \<Rightarrow> False
      | Inr projects \<Rightarrow>
          (case filter_exists w projects of
             Inl err \<Rightarrow> False
           | Inr present \<Rightarrow> present \<noteq> [] \<or> reaches_filter w es))"

text \<open>The length of the result for a limit and a number of merged pairs: the slice
  \<^verbatim>\<open>[:n]\<close> keeps \<open>n\<close> elements, all of them when there are fewer; for a negative
  \<open>n\<close> it removes \<open>- n\<close> elements from the end.\<close>

definition sliced_length :: "int \<Rightarrow> nat \<Rightarrow> nat" where
  "sliced_length n len = (if 0 \<le> n then min (nat n) len else len - nat (- n))"

text \<open>The pairs of one editor, empty when its round raises.\<close>

definition scanned :: "world \<Rightarrow> string \<Rightarrow> Editor \<Rightarrow> (Editor \<times> Project) list" where
  "scanned w query e = (case scan w query e of Inl err \<Rightarrow> [] | Inr ps \<Rightarrow> ps)"

text \<open>The time stamp of a pair, and the pairs of a given time stamp.\<close>

definition stamp_of :: "Editor \<times> Project \<Rightarrow> int" where
  "stamp_of pair = last_opened (snd pair)"

definition with_stamp :: "int \<Rightarrow> (Editor \<times> Project) list \<Rightarrow> (Editor \<times> Project) list" where
  "with_stamp t pairs = filter (\<lambda>pair. stamp_of pair = t) pairs"

section \<open>Example surroundings\<close>

text \<open>
  A user \<^verbatim>\<open>u\<close> on Linux with CLion installed under two names, three configuration
  directories of CLion, and a history of five projects in the greatest of them: three
  exist, one was deleted, one has no time stamp. The regular-expression fields state
  of \<^verbatim>\<open>re\<close> what the examples use: a pattern without special characters is found where
  it occurs as a substring, letter case ignored, and the pattern \<^verbatim>\<open>(\<close> does not compile.
\<close>

definition lower :: "char \<Rightarrow> char" where
  "lower c = (let n = (of_char c :: nat) in if 65 \<le> n \<and> n \<le> 90 then char_of (n + 32) else c)"

definition literal_found :: "string \<Rightarrow> string \<Rightarrow> bool" where
  "literal_found q s = list_ex (prefix (map lower q)) (suffixes (map lower s))"

definition stamp :: "string \<Rightarrow> element" where
  "stamp v = Element ''option'' [(''name'', ''projectOpenTimestamp''), (''value'', v)] []"

definition entry :: "string \<Rightarrow> element list \<Rightarrow> element" where
  "entry k opts =
     Element ''entry'' [(''key'', k)]
       [Element ''value'' [] [Element ''RecentProjectMetaInfo'' [] opts]]"

definition history :: "element list \<Rightarrow> element" where
  "history es =
     Element ''application'' []
       [Element ''component'' [(''name'', ''RecentProjectsManager'')]
          [Element ''option'' [(''name'', ''additionalInfo'')] [Element ''map'' [] es]]]"

definition clion_history :: element where
  "clion_history =
     history
       [entry ''$USER_HOME$/a'' [stamp ''100''],
        entry ''$USER_HOME$/b'' [stamp ''50''],
        entry ''$USER_HOME$/c'' [stamp ''200''],
        entry ''$USER_HOME$/gone'' [stamp ''300''],
        entry ''$USER_HOME$/old'' []]"

definition pycharm_history :: element where
  "pycharm_history = history [entry ''$USER_HOME$/d'' [stamp ''100'']]"

text \<open>A file name of more than 255 bytes makes \<^verbatim>\<open>stat\<close> fail (\<^verbatim>\<open>ENAMETOOLONG\<close>), and
  \<^verbatim>\<open>exists\<close> and \<^verbatim>\<open>is_file\<close> raise.\<close>

definition name_too_long :: "string \<Rightarrow> bool" where
  "name_too_long p = list_ex (\<lambda>n. 255 < length n) (split_sep CHR ''/'' p)"

definition w1 :: world where
  "w1 =
     \<lparr>home_dir = ''/home/u'', user_home = (\<lambda>_. None), platform = ''linux'',
      plugin_dir = ''/opt/plugin'',
      is_file = (\<lambda>p.
        if name_too_long p then None
        else Some (p \<in> set [''/usr/bin/clion'', ''/usr/bin/clion-eap'', ''bin/clion''])),
      path_exists = (\<lambda>p.
        if name_too_long p then None
        else Some (p \<in> set [''/home/u/a'', ''/home/u/b'', ''/home/u/c'', ''/home/u/d'', ''/srv/x''])),
      subdirs = (\<lambda>d.
        if d = ''/home/u/.config/JetBrains''
        then [''CLion-1.0'', ''CLion-2.1'', ''Toolbox'', ''CLion-10.0'', ''PyCharm2024.1'']
        else if d = ''/home/u/.config'' then [''X-1.0'', ''X-2.1'', ''JetBrains'', ''X-10.0'']
        else []),
      et_parse = (\<lambda>f.
        if f = ''/home/u/.config/JetBrains/CLion-2.1/options/recentProjects.xml''
        then Tree clion_history
        else if f = ''/home/u/.config/JetBrains/PyCharm2024.1/options/recentProjects.xml''
        then Tree pycharm_history
        else if f = ''/home/u/.config/X-2.1/options/recentProjects.xml''
        then Tree (history [entry ''/srv/x'' [stamp ''7'']])
        else if f = ''/home/u/.config/X-10.0/options/recentProjects.xml''
        then Not_well_formed
        else No_such_file),
      re_valid = (\<lambda>q. q \<noteq> ''(''),
      re_found = literal_found\<rparr>"

definition clion :: Editor where
  "clion =
     \<lparr>Editor.name = ''CLion'', icon = Path ''/'' [''opt'', ''plugin'', ''images'', ''clion.svg''],
      config_dir_prefix = ''JetBrains/CLion'', binary = Some ''/usr/bin/clion''\<rparr>"

definition pycharm :: Editor where
  "pycharm =
     \<lparr>Editor.name = ''PyCharm'', icon = Path ''/'' [''opt'', ''plugin'', ''images'', ''pycharm.svg''],
      config_dir_prefix = ''JetBrains/PyCharm'', binary = Some ''/usr/bin/pycharm''\<rparr>"

definition editor_x :: Editor where
  "editor_x =
     \<lparr>Editor.name = ''X'', icon = Path ''/'' [''opt'', ''plugin'', ''images'', ''x.svg''],
      config_dir_prefix = ''X'', binary = Some ''/usr/bin/x''\<rparr>"

definition goland :: Editor where
  "goland =
     \<lparr>Editor.name = ''GoLand'', icon = Path ''/'' [''opt'', ''plugin'', ''images'', ''goland.svg''],
      config_dir_prefix = ''JetBrains/GoLand'', binary = Some ''/usr/bin/goland''\<rparr>"

definition project :: "string \<Rightarrow> int \<Rightarrow> Project" where
  "project n t = \<lparr>Project.name = n, path = ''/home/u/'' @ n, last_opened = t\<rparr>"

definition listener :: "string \<Rightarrow> Editor list \<Rightarrow> KeywordQueryEventListener" where
  "listener limit es =
     \<lparr>preferences = \<lparr>binaries = ''/usr/bin'', item_limit = limit\<rparr>, editors = es\<rparr>"

text \<open>The same surroundings with PyCharm installed as well.\<close>

definition w2 :: world where
  "w2 =
     w1\<lparr>is_file := (\<lambda>p.
        if name_too_long p then None
        else Some (p \<in> set [''/usr/bin/clion'', ''/usr/bin/pycharm'']))\<rparr>"

text \<open>The same surroundings with a history whose time stamp is not a number, and with
  one whose entry has two time stamp options, the first without a value.\<close>

definition w_text_stamp :: world where
  "w_text_stamp =
     w1\<lparr>et_parse := (\<lambda>f. Tree (history [entry ''$USER_HOME$/a'' [stamp ''yesterday'']]))\<rparr>"

definition entry_two_options :: element where
  "entry_two_options =
     entry ''$USER_HOME$/a''
       [Element ''option'' [(''name'', ''projectOpenTimestamp'')] [], stamp ''100'']"

definition w_two_options :: world where
  "w_two_options = w1\<lparr>et_parse := (\<lambda>f. Tree (history [entry_two_options]))\<rparr>"

text \<open>The same surroundings with a history of two projects, the second with a name of
  300 letters.\<close>

definition long_name :: string where
  "long_name = CHR ''/'' # replicate 300 CHR ''a''"

definition w_long_name :: world where
  "w_long_name =
     w1\<lparr>et_parse := (\<lambda>f.
        Tree (history [entry ''$USER_HOME$/a'' [stamp ''100''], entry long_name [stamp ''50'']]))\<rparr>"


section \<open>Properties of the parts\<close>

subsection \<open>Which exceptions can leave a function\<close>

lemma py_int_error: "py_int s = Inl err \<Longrightarrow> err = ValueError"
  by (auto simp: py_int_def Let_def split: option.splits if_splits)

lemma project_of_entry_error:
  "project_of_entry w e = Inl err \<Longrightarrow> err = ValueError \<or> err = KeyError"
  by (auto simp: project_of_entry_def Let_def split: option.splits if_splits sum.splits
      dest: py_int_error)

lemma parse_entries_error: "parse_entries w es = Inl err \<Longrightarrow> err = ValueError \<or> err = KeyError"
  by (induction es) (auto split: sum.splits dest: project_of_entry_error)

lemma parse_recent_projects_error:
  "parse_recent_projects w f = Inl err \<Longrightarrow>
     err = ValueError \<or> err = KeyError \<or> err = OSError \<or> err = LookupError"
  by (auto simp: parse_recent_projects_def split: et_result.splits dest: parse_entries_error)

lemma list_projects_error:
  "list_projects w e = Inl err \<Longrightarrow>
     err = ValueError \<or> err = KeyError \<or> err = OSError \<or> err = LookupError"
  by (auto simp: list_projects_def Let_def split: if_splits dest: parse_recent_projects_error)

subsection \<open>The filter of the projects that exist\<close>

lemma filter_exists_error: "filter_exists w ps = Inl err \<Longrightarrow> err = OSError"
  by (induction ps) (auto split: option.splits sum.splits)

lemma filter_exists_Inr: "filter_exists w ps = Inr qs \<Longrightarrow> qs = existing w ps"
  by (induction ps arbitrary: qs) (auto simp: existing_def split: option.splits sum.splits)

lemma filter_exists_answers:
  "(\<exists>qs. filter_exists w ps = Inr qs) \<longleftrightarrow>
     (\<forall>p\<in>set ps. path_exists w (path_str (Path_of (path p))) \<noteq> None)"
  by (induction ps) (auto split: option.splits sum.splits)

subsection \<open>The regular-expression filter\<close>

lemma filter_search_valid:
  "re_valid w q \<Longrightarrow> filter_search w q ps = Inr (filter (\<lambda>p. re_found w q (Project.name p)) ps)"
  by (induction ps) (auto simp: re_search_def)

lemma filter_search_invalid:
  "\<not> re_valid w q \<Longrightarrow> filter_search w q ps = (if ps = [] then Inr [] else Inl Re_error)"
  by (cases ps) (auto simp: re_search_def)

lemma filter_search_Inr:
  "filter_search w q ps = Inr qs \<Longrightarrow> qs = filter (\<lambda>p. re_found w q (Project.name p)) ps"
  by (cases "re_valid w q") (auto simp: filter_search_valid filter_search_invalid split: if_splits)

lemma scan_Re_error:
  "scan w q e = Inl Re_error \<longleftrightarrow>
     \<not> re_valid w q \<and>
     (\<exists>ps present. list_projects w e = Inr ps \<and> filter_exists w ps = Inr present \<and> present \<noteq> [])"
  by (cases "re_valid w q")
    (auto simp: scan_def filter_search_valid filter_search_invalid split: sum.splits if_splits
      dest: list_projects_error filter_exists_error)

lemma scan_invalid_Inr:
  "\<not> re_valid w q \<Longrightarrow> scan w q e = Inr ps \<Longrightarrow> ps = []"
  by (auto simp: scan_def filter_search_invalid split: sum.splits if_splits)

lemma scan_Inr:
  "scan w q e = Inr r \<Longrightarrow>
     \<exists>projects. list_projects w e = Inr projects \<and>
       r = map (Pair e) (filter (\<lambda>p. re_found w q (Project.name p)) (existing w projects))"
  by (auto simp: scan_def split: sum.splits dest: filter_search_Inr filter_exists_Inr)

lemma collect_Re_error:
  "collect w q es = Inl Re_error \<longleftrightarrow> \<not> re_valid w q \<and> reaches_filter w es"
proof (induction es)
  case Nil
  show ?case by simp
next
  case (Cons e es)
  show ?case
  proof (cases "scan w q e")
    case (Inl err)
    then show ?thesis
      using scan_Re_error [of w q e]
      by (auto simp: scan_def filter_search_valid filter_search_invalid
          split: sum.splits if_splits)
  next
    case (Inr ps)
    then show ?thesis
      using Cons.IH scan_Re_error [of w q e]
      by (cases "re_valid w q")
        (auto simp: scan_def filter_search_valid filter_search_invalid
          split: sum.splits if_splits)
  qed
qed

subsection \<open>The loop over the editors\<close>

lemma collect_succeeds_iff:
  "(\<exists>ps. collect w q es = Inr ps) \<longleftrightarrow> (\<forall>e\<in>set es. \<exists>r. scan w q e = Inr r)"
  by (induction es) (auto split: sum.splits)

lemma collect_Inr_concat: "collect w q es = Inr ps \<Longrightarrow> ps = concat (map (scanned w q) es)"
  by (induction es arbitrary: ps) (auto simp: scanned_def split: sum.splits)

lemma collect_Inr_iff:
  "collect w q es = Inr ps \<longleftrightarrow>
     (\<forall>e\<in>set es. \<exists>r. scan w q e = Inr r) \<and> ps = concat (map (scanned w q) es)"
  using collect_succeeds_iff [of w q es] collect_Inr_concat [of w q es] by metis

lemma collect_invalid_Inr: "\<not> re_valid w q \<Longrightarrow> collect w q es = Inr ps \<Longrightarrow> ps = []"
  by (induction es arbitrary: ps) (auto split: sum.splits dest: scan_invalid_Inr)

lemma collect_exists:
  assumes "collect w q es = Inr ps" and "pair \<in> set ps"
  shows "path_exists w (path_str (Path_of (path (snd pair)))) = Some True"
proof -
  from assms obtain e where e: "e \<in> set es" "pair \<in> set (scanned w q e)"
    by (auto simp: collect_Inr_iff)
  from assms e(1) obtain r where r: "scan w q e = Inr r"
    by (auto simp: collect_Inr_iff)
  with e(2) have "pair \<in> set r" by (simp add: scanned_def)
  with scan_Inr [OF r] show ?thesis by (auto simp: existing_def)
qed

lemma collect_perm:
  assumes "collect w q es = Inr ps" and "mset es' = mset es"
  shows "\<exists>ps'. collect w q es' = Inr ps' \<and> mset ps' = mset ps"
proof -
  from assms(2) have s: "set es' = set es" by (rule mset_eq_setD)
  have "mset (concat (map (scanned w q) es')) = mset (concat (map (scanned w q) es))"
    using assms(2) by (metis mset_concat mset_map sum_mset_sum_list)
  with assms(1) s show ?thesis by (simp add: collect_Inr_iff)
qed

subsection \<open>Sorting and truncating\<close>

lemma stamp_of_fun: "stamp_of = (\<lambda>pair. last_opened (snd pair))"
  by (rule ext) (simp add: stamp_of_def)

lemma filter_eq_distinct: "distinct zs \<Longrightarrow> k \<in> set zs \<Longrightarrow> filter (\<lambda>x. k = x) zs = [k]"
  by (induction zs) (auto simp: filter_empty_conv)

lemma sorted_desc_sort_pairs: "sorted_wrt (\<lambda>a b. stamp_of b \<le> stamp_of a) (sort_pairs ps)"
proof -
  have "sorted (map (\<lambda>pair. - last_opened (snd pair)) (sort_pairs ps))"
    unfolding sort_pairs_def by (rule sorted_sort_key)
  then show ?thesis by (simp add: sorted_map stamp_of_def)
qed

lemma with_stamp_sort_pairs: "with_stamp t (sort_pairs ps) = with_stamp t ps"
proof -
  have "filter (\<lambda>y. - last_opened (snd y) = - t) (sort_key (\<lambda>pair. - last_opened (snd pair)) ps)
      = filter (\<lambda>y. - last_opened (snd y) = - t) ps"
    by (rule sort_key_stable)
  then show ?thesis by (simp add: with_stamp_def stamp_of_def sort_pairs_def)
qed

lemma mset_sort_pairs: "mset (sort_pairs ps) = mset ps"
  by (simp add: sort_pairs_def)

lemma sort_pairs_perm_stamps:
  assumes "mset ps' = mset ps"
  shows "map stamp_of (sort_pairs ps') = map stamp_of (sort_pairs ps)"
proof -
  let ?k = "\<lambda>pair. - last_opened (snd pair)"
  have "mset (map ?k (sort_pairs ps')) = mset (map ?k (sort_pairs ps))"
    using assms by (simp add: mset_sort_pairs)
  moreover have "sorted (map ?k (sort_pairs ps'))" "sorted (map ?k (sort_pairs ps))"
    by (simp_all add: sort_pairs_def)
  ultimately have "map ?k (sort_pairs ps') = map ?k (sort_pairs ps)"
    by (metis properties_for_sort sort_key_id_if_sorted)
  then have "map (uminus \<circ> ?k) (sort_pairs ps') = map (uminus \<circ> ?k) (sort_pairs ps)"
    by (metis map_map)
  then show ?thesis by (simp add: stamp_of_fun comp_def)
qed

lemma sort_pairs_perm_distinct:
  assumes "mset ps' = mset ps" and "distinct (map stamp_of ps)"
  shows "sort_pairs ps' = sort_pairs ps"
proof -
  let ?k = "\<lambda>pair. - last_opened (snd pair)"
  have inj: "inj_on stamp_of (set ps)" and d: "distinct ps"
    using assms(2) by (simp_all add: distinct_map)
  have set_eq: "set ps' = set ps" using assms(1) by (rule mset_eq_setD)
  have d': "distinct ps'" using assms(1) d by (metis mset_eq_imp_distinct_iff)
  have "sort_key ?k ps' = sort_pairs ps"
  proof (rule properties_for_sort_key)
    show "mset (sort_pairs ps) = mset ps'" using assms(1) by (simp add: mset_sort_pairs)
    show "sorted (map ?k (sort_pairs ps))" by (simp add: sort_pairs_def)
    show "filter (\<lambda>x. ?k k = ?k x) (sort_pairs ps) = filter (\<lambda>x. ?k k = ?k x) ps'"
      if "k \<in> set (sort_pairs ps)" for k
    proof -
      have k: "k \<in> set ps" using that by (simp add: sort_pairs_def)
      have eq: "(last_opened (snd k) = last_opened (snd x)) = (k = x)" if "x \<in> set ps" for x
        using inj k that by (auto simp: inj_on_def stamp_of_def)
      have "filter (\<lambda>x. ?k k = ?k x) (sort_pairs ps) = filter (\<lambda>x. k = x) (sort_pairs ps)"
        by (rule filter_cong) (simp_all add: eq sort_pairs_def)
      also have "\<dots> = [k]"
        using d k by (intro filter_eq_distinct) (simp_all add: sort_pairs_def)
      also have "\<dots> = filter (\<lambda>x. k = x) ps'"
        using d' k set_eq by (simp add: filter_eq_distinct)
      also have "\<dots> = filter (\<lambda>x. ?k k = ?k x) ps'"
        by (rule filter_cong) (simp_all add: eq set_eq)
      finally show ?thesis .
    qed
  qed
  then show ?thesis by (simp add: sort_pairs_def)
qed

lemma length_slice_to: "0 \<le> n \<Longrightarrow> length (slice_to n xs) \<le> nat n"
  by (simp add: slice_to_def)

lemma set_slice_to: "set (slice_to n xs) \<subseteq> set xs"
  by (auto simp: slice_to_def dest: in_set_takeD)

lemma set_sort_pairs: "set (sort_pairs ps) = set ps"
  by (simp add: sort_pairs_def)

lemma length_slice_to_sliced: "length (slice_to n xs) = sliced_length n (length xs)"
  by (auto simp: slice_to_def sliced_length_def)

lemma slice_to_take: "\<exists>k. slice_to n xs = take k xs"
  by (auto simp: slice_to_def)

lemma map_slice_to: "map f (slice_to n xs) = slice_to n (map f xs)"
  by (simp add: slice_to_def take_map)

lemma prefix_filter_take: "prefix (filter P (take k xs)) (filter P xs)"
proof -
  have "filter P xs = filter P (take k xs) @ filter P (drop k xs)"
    by (metis append_take_drop_id filter_append)
  then show ?thesis by (simp add: prefix_def)
qed

lemma sorted_wrt_take_drop:
  assumes "sorted_wrt R xs" and "x \<in> set (take k xs)" and "y \<in> set (drop k xs)"
  shows "R x y"
proof -
  have "sorted_wrt R (take k xs @ drop k xs)" using assms(1) by simp
  then show ?thesis using assms(2,3) unfolding sorted_wrt_append by blast
qed

subsection \<open>Paths\<close>

lemma split_sep_not_Nil: "split_sep c s \<noteq> []"
  by (induction s) (auto split: list.splits)

lemma split_sep_no_sep: "c \<notin> set s \<Longrightarrow> split_sep c s = [s]"
  by (induction s) auto

lemma split_sep_append: "split_sep c (a @ c # b) = split_sep c a @ split_sep c b"
proof (induction a)
  case Nil
  show ?case by simp
next
  case (Cons x a)
  obtain p ps where "split_sep c a = p # ps"
    using split_sep_not_Nil [of c a] by (cases "split_sep c a") auto
  with Cons show ?case by simp
qed

lemma path_name_segment:
  assumes "CHR ''/'' \<notin> set s" and "s \<noteq> []" and "s \<noteq> ''.''"
  shows "path_name (Path_of (d @ ''/'' @ s)) = s"
proof -
  have "split_sep CHR ''/'' (d @ ''/'' @ s) = split_sep CHR ''/'' d @ [s]"
    using split_sep_append [of "CHR ''/''" d s] assms(1) by (simp add: split_sep_no_sep)
  with assms(2,3) show ?thesis by (simp add: Path_of_def path_name_def)
qed

lemma path_root_absolute: "path_root s \<noteq> [] \<longleftrightarrow> take 1 s = ''/''"
  by (simp add: path_root_def)

lemma path_str_absolute: "root p \<noteq> [] \<Longrightarrow> take 1 (path_str p) = take 1 (root p)"
  by (cases "root p") (simp_all add: path_str_def)

lemma expanduser_absolute: "root p \<noteq> [] \<Longrightarrow> expanduser w p = Inr p"
  by (simp add: expanduser_def split: list.splits)

subsection \<open>The greatest configuration directory\<close>

lemma glob_prefix_names:
  "glob_prefix w (config_dir w) (config_dir_prefix e) =
     map (\<lambda>n. Path (root (config_parent w e)) (parts (config_parent w e) @ [n]))
       (candidate_names w e)"
  by (simp add: glob_prefix_def candidate_names_def config_parent_def config_stem_def Let_def)

lemma append_single_le: "(ks @ [a] \<le> ks @ [b]) = (a \<le> (b :: 'a :: linorder))"
  by (induction ks) auto

lemma path_key_child_le:
  "(path_key (Path r (ps @ [a])) \<le> path_key (Path r (ps @ [b]))) = (a \<le> b)"
  using append_single_le [of "r # ps" a b] append_single_le [of ps a b]
  by (simp add: path_key_def)

lemma sorted_last_greatest: "sorted xs \<Longrightarrow> x \<in> set xs \<Longrightarrow> x \<le> last xs"
  by (induction xs) (auto split: if_splits)

lemma last_sort_key_greatest:
  assumes "x \<in> set xs"
  shows "f x \<le> f (last (sort_key f xs))"
proof -
  have ne: "sort_key f xs \<noteq> []" using assms by (metis empty_iff list.set(1) set_sort)
  have "f x \<in> set (map f (sort_key f xs))" using assms by simp
  then have "f x \<le> last (map f (sort_key f xs))"
    by (intro sorted_last_greatest) simp_all
  with ne show ?thesis by (simp add: last_map)
qed

lemma last_sort_children:
  assumes "ns \<noteq> []"
  shows "last (sort_key path_key (map (\<lambda>n. Path r (ps @ [n])) ns)) = Path r (ps @ [Max (set ns)])"
proof -
  let ?c = "\<lambda>n. Path r (ps @ [n])"
  let ?l = "last (sort_key path_key (map ?c ns))"
  have "?l \<in> set (sort_key path_key (map ?c ns))"
    using assms by (intro last_in_set) (metis length_0_conv length_map length_sort)
  then obtain m where m: "m \<in> set ns" "?l = ?c m" by auto
  have "n \<le> m" if "n \<in> set ns" for n
  proof -
    have "?c n \<in> set (map ?c ns)" using that by simp
    then have "path_key (?c n) \<le> path_key ?l" by (rule last_sort_key_greatest)
    then show ?thesis by (simp add: m(2) path_key_child_le)
  qed
  with m(1) have "Max (set ns) = m" by (intro Max_eqI) simp_all
  with m(2) show ?thesis by simp
qed

lemma list_projects_greatest:
  "list_projects w e =
     (if candidate_names w e = [] then Inr []
      else parse_recent_projects w (history_file w e (Max (set (candidate_names w e)))))"
  by (simp add: list_projects_def glob_prefix_names last_sort_children history_file_def Let_def)

subsection \<open>The history parser\<close>

lemma project_of_entry_Inr:
  assumes "project_of_entry w e = Inr ps"
  shows "if emits w e
         then \<exists>n. map_option py_int (timestamp_value e) = Some (Inr n) \<and>
                ps = [\<lparr>Project.name = path_name (Path_of (resolved_path w e)),
                       path = resolved_path w e, last_opened = n\<rparr>]
         else ps = []"
  using assms
  by (auto simp: project_of_entry_def emits_def resolved_path_def timestamp_value_def Let_def
      split: option.splits if_splits sum.splits)

lemma parse_entries_Inr:
  assumes "parse_entries w es = Inr ps"
  shows "map path ps = map (resolved_path w) (filter (emits w) es)"
    and "map Project.name ps =
           map (\<lambda>e. path_name (Path_of (resolved_path w e))) (filter (emits w) es)"
    and "map (\<lambda>p. Some (Inr (last_opened p))) ps =
           map (\<lambda>e. map_option py_int (timestamp_value e)) (filter (emits w) es)"
  using assms
proof (induction es arbitrary: ps)
  case Nil
  {
    case 1 then show ?case by simp
  next
    case 2 then show ?case by simp
  next
    case 3 then show ?case by simp
  }
next
  case (Cons e es)
  {
    case 1
    then obtain p1 p2 where p: "project_of_entry w e = Inr p1" "parse_entries w es = Inr p2"
      "ps = p1 @ p2" by (auto split: sum.splits)
    from project_of_entry_Inr [OF p(1)] Cons.IH(1) [OF p(2)] p(3) show ?case
      by (auto split: if_splits)
  next
    case 2
    then obtain p1 p2 where p: "project_of_entry w e = Inr p1" "parse_entries w es = Inr p2"
      "ps = p1 @ p2" by (auto split: sum.splits)
    from project_of_entry_Inr [OF p(1)] Cons.IH(2) [OF p(2)] p(3) show ?case
      by (auto split: if_splits)
  next
    case 3
    then obtain p1 p2 where p: "project_of_entry w e = Inr p1" "parse_entries w es = Inr p2"
      "ps = p1 @ p2" by (auto split: sum.splits)
    from project_of_entry_Inr [OF p(1)] Cons.IH(3) [OF p(2)] p(3) show ?case
      by (auto split: if_splits)
  }
qed

lemma parse_recent_projects_absent:
  "et_parse w (path_str f) = No_such_file \<or> et_parse w (path_str f) = Not_well_formed \<Longrightarrow>
     parse_recent_projects w f = Inr []"
  by (auto simp: parse_recent_projects_def)

subsection \<open>The binary resolver\<close>

lemma find_binary_Inr:
  "find_binary w bp bins = Inr r \<Longrightarrow>
     r = map_option (binary_path w bp) (List.find (\<lambda>b. is_binary w bp b = Some True) bins)"
  by (induction bins)
    (auto simp: is_binary_def binary_path_def candidate_def split: sum.splits option.splits bool.splits)

lemma find_binary_returns:
  "(\<forall>b\<in>set bins. is_binary w bp b \<noteq> None) \<Longrightarrow> \<exists>r. find_binary w bp bins = Inr r"
  by (induction bins)
    (auto simp: is_binary_def candidate_def split: sum.splits option.splits bool.splits)

lemma find_binary_Some:
  assumes "find_binary w bp bins = Inr (Some s)"
  shows "\<exists>b. s = binary_path w bp b \<and> is_binary w bp b = Some True"
proof -
  from find_binary_Inr [OF assms]
  obtain b where b: "List.find (\<lambda>b. is_binary w bp b = Some True) bins = Some b"
    "s = binary_path w bp b"
    by (cases "List.find (\<lambda>b. is_binary w bp b = Some True) bins") auto
  from b(1) have "is_binary w bp b = Some True" by (auto simp: find_Some_iff)
  with b(2) show ?thesis by blast
qed

lemma candidate_absolute:
  assumes "take 1 bp = ''/''"
  shows "candidate w bp b = Inr (Path_of (bp @ ''/'' @ b))"
    and "take 1 (path_str (Path_of (bp @ ''/'' @ b))) = ''/''"
proof -
  have "take 1 (bp @ ''/'' @ b) = ''/''" using assms by (cases bp) simp_all
  then have r: "root (Path_of (bp @ ''/'' @ b)) \<noteq> []"
    by (simp add: Path_of_def path_root_absolute)
  then show "candidate w bp b = Inr (Path_of (bp @ ''/'' @ b))"
    by (simp add: candidate_def expanduser_absolute)
  have "take 1 (root (Path_of (bp @ ''/'' @ b))) = ''/''"
    using r by (auto simp: Path_of_def path_root_def split: if_splits)
  with path_str_absolute [OF r] show "take 1 (path_str (Path_of (bp @ ''/'' @ b))) = ''/''"
    by simp
qed

lemma make_editors_binaries:
  "make_editors w bp reg = Inr es \<Longrightarrow>
     map binary es = map (\<lambda>(nm, ic, pre, bins). case find_binary w bp bins of Inr b \<Rightarrow> b | Inl err \<Rightarrow> None) reg
     \<and> map Editor.name es = map fst reg
     \<and> (\<forall>(nm, ic, pre, bins)\<in>set reg. \<exists>b. find_binary w bp bins = Inr b)"
  by (induction w bp reg arbitrary: es rule: make_editors.induct)
    (auto simp: Editor_init_def split: sum.splits)

lemma project_of_entry_name:
  "project_of_entry w e = Inr ps \<Longrightarrow> p \<in> set ps \<Longrightarrow> Project.name p = path_name (Path_of (path p))"
  by (auto simp: project_of_entry_def Let_def split: option.splits if_splits sum.splits)

lemma parse_entries_name:
  "parse_entries w es = Inr ps \<Longrightarrow> p \<in> set ps \<Longrightarrow> Project.name p = path_name (Path_of (path p))"
  by (induction es arbitrary: ps) (auto split: sum.splits dest: project_of_entry_name)

lemma make_editors_kept:
  "make_editors w bp reg = Inr es \<Longrightarrow>
     map Editor.name (filter (\<lambda>e. binary e \<noteq> None) es) =
     map fst (filter (\<lambda>(nm, ic, pre, bins). find_binary w bp bins \<noteq> Inr None) reg)"
  by (induction w bp reg arbitrary: es rule: make_editors.induct)
    (auto simp: Editor_init_def split: sum.splits)

section \<open>The history parser and failures (C1)\<close>

text \<open>
  C1 says that the history parser never raises, and returns the empty list for a file
  that is missing or malformed in any way. The parser does so for a missing file and for
  one that is not well-formed XML (\<open>parse_recent_projects_absent\<close>). It does not for a
  well-formed history whose time stamp is not a number: \<^verbatim>\<open>int\<close> raises \<^verbatim>\<open>ValueError\<close>
  inside \<^verbatim>\<open>try\<close>, the \<^verbatim>\<open>except\<close> clause names only \<^verbatim>\<open>ParseError\<close> and
  \<^verbatim>\<open>FileNotFoundError\<close>, and the exception leaves the parser and then the query handler.
  The theorem evaluates both on such a history, whose only entry has the time stamp
  \<^verbatim>\<open>yesterday\<close>.
\<close>

theorem parser_raises_on_text_stamp:
  "parse_recent_projects w_text_stamp
     (Path_of ''/home/u/.config/JetBrains/CLion-2.1/options/recentProjects.xml'') = Inl ValueError
   \<and> on_event w_text_stamp (listener ''10'' [clion]) '''' = Inl ValueError"
  by code_simp

section \<open>The result limit (C2)\<close>

text \<open>
  C2 says that a result limit that is not a number fails when the configuration is
  loaded, and never makes a query fail. The code reads the limit in the query handler
  only: \<^verbatim>\<open>__init__\<close> keeps the preferences and does not look at \<^verbatim>\<open>item_limit\<close>, and
  \<^verbatim>\<open>on_event\<close> calls \<^verbatim>\<open>int\<close> on it at every query. What holds instead (C2 as amended):
  loading the configuration gives the same outcome whatever the limit is; with a limit
  that \<^verbatim>\<open>int\<close> rejects every query fails, with \<^verbatim>\<open>ValueError\<close> at the truncation when the
  scan of the editors went through; with a limit that \<^verbatim>\<open>int\<close> accepts the truncation does
  not fail, so that a query that fails has failed in the scan.
\<close>

theorem limit_is_read_per_query:
  "init w (prefs\<lparr>item_limit := s\<rparr>) =
     map_sum (\<lambda>err. err) (\<lambda>self. self\<lparr>preferences := prefs\<lparr>item_limit := s\<rparr>\<rparr>) (init w prefs)
   \<and> (py_int (item_limit (preferences self)) = Inl err \<longrightarrow>
        (\<exists>raised. on_event w self q = Inl raised) \<and>
        (collect w q (editors self) = Inr pairs \<longrightarrow> on_event w self q = Inl ValueError))
   \<and> (py_int (item_limit (preferences self')) = Inr n \<longrightarrow>
        on_event w self' q = Inl raised' \<longrightarrow> collect w q (editors self') = Inl raised')"
proof (intro conjI impI)
  show "init w (prefs\<lparr>item_limit := s\<rparr>) =
     map_sum (\<lambda>err. err) (\<lambda>self. self\<lparr>preferences := prefs\<lparr>item_limit := s\<rparr>\<rparr>) (init w prefs)"
    by (simp add: init_def split: sum.splits)
next
  assume "py_int (item_limit (preferences self)) = Inl err"
  then show "\<exists>raised. on_event w self q = Inl raised"
    by (simp add: on_event_def ranked_def split: sum.splits)
next
  assume "py_int (item_limit (preferences self)) = Inl err"
    and "collect w q (editors self) = Inr pairs"
  then show "on_event w self q = Inl ValueError"
    by (auto simp: on_event_def ranked_def dest: py_int_error)
next
  assume "py_int (item_limit (preferences self')) = Inr n"
    and "on_event w self' q = Inl raised'"
  then show "collect w q (editors self') = Inl raised'"
    by (auto simp: on_event_def ranked_def split: sum.splits)
qed

text \<open>The amended statement at work: a limit \<^verbatim>\<open>abc\<close> with an editor that has no history, and
  a limit \<^verbatim>\<open>10\<close> with the history whose time stamp is not a number.\<close>

theorem limit_is_read_per_query_witness:
  "py_int (item_limit (preferences (listener ''abc'' [goland]))) = Inl ValueError
   \<and> collect w_text_stamp '''' (editors (listener ''abc'' [goland])) = Inr []
   \<and> on_event w_text_stamp (listener ''abc'' [goland]) '''' = Inl ValueError
   \<and> py_int (item_limit (preferences (listener ''10'' [clion]))) = Inr 10
   \<and> on_event w_text_stamp (listener ''10'' [clion]) '''' = Inl ValueError
   \<and> collect w_text_stamp '''' (editors (listener ''10'' [clion])) = Inl ValueError"
proof -
  have 1: "py_int (item_limit (preferences (listener ''abc'' [goland]))) = Inl ValueError"
    by code_simp
  have 2: "collect w_text_stamp '''' (editors (listener ''abc'' [goland])) = Inr []"
    by code_simp
  have 3: "py_int (item_limit (preferences (listener ''10'' [clion]))) = Inr 10"
    by code_simp
  have 4: "on_event w_text_stamp (listener ''10'' [clion]) '''' = Inl ValueError"
    by code_simp
  from limit_is_read_per_query
    [of w_text_stamp _ _ "listener ''abc'' [goland]" ValueError "''''" "[]"
      "listener ''10'' [clion]" 10 ValueError]
    1 2 3 4
  show ?thesis by blast
qed

text \<open>C2 as stated fails: with the limit \<^verbatim>\<open>abc\<close> the configuration is loaded, CLion is
  found, and the query for everything raises \<^verbatim>\<open>ValueError\<close>.\<close>

theorem text_limit_counterexample:
  "init w1 \<lparr>binaries = ''/usr/bin'', item_limit = ''abc''\<rparr> = Inr (listener ''abc'' [clion])
   \<and> on_event w1 (listener ''abc'' [clion]) '''' = Inl ValueError"
  by code_simp

section \<open>Queries that are not regular expressions (C3)\<close>

text \<open>
  C3 says that no query string makes the query handler raise: a pattern that does not
  compile gives no match, or is matched literally. The handler passes the query to
  \<^verbatim>\<open>re.search\<close> as it is and catches nothing, so the exception of the compilation,
  \<^verbatim>\<open>re.error\<close> as a rule, leaves it. What holds instead (C3 as amended): the handler
  raises the exception of the compilation exactly when the query does not compile and
  the loop over the editors gets to search a project that exists before anything else
  has raised, in the parser or in \<^verbatim>\<open>exists\<close>; the pattern is compiled only when there is
  a name to search. A query that compiles never raises it, and when a query that does
  not compile is answered, the answer is the empty list.
\<close>

theorem invalid_pattern_raises:
  "(on_event w self q = Inl Re_error \<longleftrightarrow> \<not> re_valid w q \<and> reaches_filter w (editors self))
   \<and> (\<not> re_valid w q \<longrightarrow> on_event w self' q = Inr items \<longrightarrow> items = [])"
proof (intro conjI impI)
  show "on_event w self q = Inl Re_error \<longleftrightarrow> \<not> re_valid w q \<and> reaches_filter w (editors self)"
    using collect_Re_error [of w q "editors self"]
    by (auto simp: on_event_def ranked_def split: sum.splits dest: py_int_error)
next
  assume "\<not> re_valid w q" and "on_event w self' q = Inr items"
  then show "items = []"
    by (auto simp: on_event_def ranked_def slice_to_def sort_pairs_def split: sum.splits
        dest: collect_invalid_Inr)
qed

text \<open>The amended statement at work: the query \<^verbatim>\<open>(\<close> raises \<^verbatim>\<open>re.error\<close> with CLion,
  whose history has projects that exist, and is answered by the empty list with GoLand,
  which has no history; with a history in which the name of a project is too long for
  the file system it is \<^verbatim>\<open>exists\<close> that raises, before any search, and the exception is
  \<^verbatim>\<open>OSError\<close>. The query \<^verbatim>\<open>A\<close>, which compiles, finds the project \<^verbatim>\<open>a\<close> of CLion.\<close>

theorem invalid_pattern_raises_witness:
  "\<not> re_valid w1 ''(''
   \<and> reaches_filter w1 (editors (listener ''10'' [clion]))
   \<and> on_event w1 (listener ''10'' [clion]) ''('' = Inl Re_error
   \<and> \<not> reaches_filter w1 (editors (listener ''10'' [goland]))
   \<and> on_event w1 (listener ''10'' [goland]) ''('' = Inr []
   \<and> \<not> re_valid w_long_name ''(''
   \<and> \<not> reaches_filter w_long_name (editors (listener ''10'' [clion]))
   \<and> on_event w_long_name (listener ''10'' [clion]) ''('' = Inl OSError
   \<and> on_event w_long_name (listener ''10'' [clion]) ''('' \<noteq> Inl Re_error
   \<and> on_event w1 (listener ''10'' [clion]) ''A'' = Inr [render (clion, project ''a'' 100)]"
proof -
  have 1: "\<not> re_valid w1 ''(''" by code_simp
  have 2: "reaches_filter w1 (editors (listener ''10'' [clion]))" by code_simp
  have 3: "\<not> reaches_filter w1 (editors (listener ''10'' [goland]))" by code_simp
  have 4: "on_event w1 (listener ''10'' [goland]) ''('' = Inr []" by code_simp
  have 5: "on_event w1 (listener ''10'' [clion]) ''A'' = Inr [render (clion, project ''a'' 100)]"
    by code_simp
  from invalid_pattern_raises
    [of w1 "listener ''10'' [clion]" "''(''" "listener ''10'' [goland]" "[]"] 1 2
  have 6: "on_event w1 (listener ''10'' [clion]) ''('' = Inl Re_error" by blast
  have 7: "\<not> re_valid w_long_name ''(''" by code_simp
  have 8: "\<not> reaches_filter w_long_name (editors (listener ''10'' [clion]))" by code_simp
  have 9: "on_event w_long_name (listener ''10'' [clion]) ''('' = Inl OSError" by code_simp
  from invalid_pattern_raises
    [of w_long_name "listener ''10'' [clion]" "''(''" "listener ''10'' [clion]" "[]"] 8
  have 10: "on_event w_long_name (listener ''10'' [clion]) ''('' \<noteq> Inl Re_error" by blast
  from 1 2 3 4 5 6 7 8 9 10 show ?thesis by (intro conjI)
qed

text \<open>C3 as stated fails: the query \<^verbatim>\<open>(\<close> with CLion, whose history has projects that
  exist, raises \<^verbatim>\<open>re.error\<close>.\<close>

theorem invalid_pattern_counterexample:
  "init w1 \<lparr>binaries = ''/usr/bin'', item_limit = ''10''\<rparr> = Inr (listener ''10'' [clion])
   \<and> on_event w1 (listener ''10'' [clion]) ''('' = Inl Re_error"
  by code_simp

section \<open>The greatest configuration directory (C4)\<close>

text \<open>
  C4: of the configuration directories whose names start with the prefix of the editor,
  \<^verbatim>\<open>list_projects\<close> reads the history of the one with the greatest name in the
  lexicographic order of strings, so of \<^verbatim>\<open>X-1.0\<close>, \<^verbatim>\<open>X-2.1\<close>, \<^verbatim>\<open>X-10.0\<close> it reads
  \<^verbatim>\<open>X-2.1\<close>; when there is none, the result is the empty list and nothing is raised.
  The names of the directories that \<^verbatim>\<open>glob\<close> returns are \<open>candidate_names\<close>.
\<close>

theorem selector_picks_greatest_name:
  "map path_name (glob_prefix w (config_dir w) (config_dir_prefix e)) = candidate_names w e
   \<and> (\<forall>n\<in>set (candidate_names w e).
         prefix (config_stem e) n \<and> n \<le> Max (set (candidate_names w e)))
   \<and> (candidate_names w e \<noteq> [] \<longrightarrow>
         Max (set (candidate_names w e)) \<in> set (candidate_names w e) \<and>
         list_projects w e =
           parse_recent_projects w (history_file w e (Max (set (candidate_names w e)))))
   \<and> (candidate_names w e = [] \<longrightarrow> list_projects w e = Inr [])"
proof (intro conjI impI ballI)
  show "map path_name (glob_prefix w (config_dir w) (config_dir_prefix e)) = candidate_names w e"
    by (simp add: glob_prefix_names path_name_def comp_def)
next
  fix n assume "n \<in> set (candidate_names w e)"
  then show "prefix (config_stem e) n" by (simp add: candidate_names_def)
next
  fix n assume "n \<in> set (candidate_names w e)"
  then show "n \<le> Max (set (candidate_names w e))" by simp
next
  assume "candidate_names w e \<noteq> []"
  then show "Max (set (candidate_names w e)) \<in> set (candidate_names w e)"
    by (intro Max_in) simp_all
next
  assume "candidate_names w e \<noteq> []"
  then show "list_projects w e =
      parse_recent_projects w (history_file w e (Max (set (candidate_names w e))))"
    by (simp add: list_projects_greatest)
next
  assume "candidate_names w e = []"
  then show "list_projects w e = Inr []" by (simp add: list_projects_greatest)
qed

text \<open>The example of C4: the history under \<^verbatim>\<open>X-2.1\<close> has the project \<^verbatim>\<open>/srv/x\<close>, the file
  under \<^verbatim>\<open>X-10.0\<close> is not XML and there is none under \<^verbatim>\<open>X-1.0\<close>. GoLand has no
  configuration directory.\<close>

theorem selector_picks_greatest_name_witness:
  "candidate_names w1 editor_x = [''X-1.0'', ''X-2.1'', ''X-10.0'']
   \<and> Max (set (candidate_names w1 editor_x)) = ''X-2.1''
   \<and> list_projects w1 editor_x = parse_recent_projects w1 (history_file w1 editor_x ''X-2.1'')
   \<and> list_projects w1 editor_x = Inr [\<lparr>Project.name = ''x'', path = ''/srv/x'', last_opened = 7\<rparr>]
   \<and> candidate_names w1 goland = []
   \<and> list_projects w1 goland = Inr []"
proof -
  have 1: "candidate_names w1 editor_x = [''X-1.0'', ''X-2.1'', ''X-10.0'']" by code_simp
  have 2: "Max (set (candidate_names w1 editor_x)) = ''X-2.1''" by code_simp
  have 3: "parse_recent_projects w1 (history_file w1 editor_x ''X-2.1'') =
      Inr [\<lparr>Project.name = ''x'', path = ''/srv/x'', last_opened = 7\<rparr>]" by code_simp
  have 4: "candidate_names w1 goland = []" by code_simp
  have 5: "candidate_names w1 editor_x \<noteq> []" by (simp add: 1)
  from selector_picks_greatest_name [of w1 editor_x] 5
  have 6: "list_projects w1 editor_x =
      parse_recent_projects w1 (history_file w1 editor_x (Max (set (candidate_names w1 editor_x))))"
    by blast
  from selector_picks_greatest_name [of w1 goland] 4
  have 7: "list_projects w1 goland = Inr []" by blast
  from 1 2 3 4 6 7 show ?thesis by simp
qed

section \<open>Which entries become projects (C5)\<close>

text \<open>
  C5 says that every entry element of a well-formed history gives exactly one project if
  and only if its resolved path is not empty and a time stamp option with a non-empty
  value exists, the name being the last segment of the path. The parser reads less than
  that. It takes the entries that \<^verbatim>\<open>findall\<close> selects, with a key and below a component
  named \<^verbatim>\<open>RecentProjectsManager\<close>, once for each way the path reaches them, and of an
  entry it looks at the first option named \<^verbatim>\<open>projectOpenTimestamp\<close> only. What holds
  (C5 as amended): when the parser returns, its projects are, in document order, those of
  the selected entries that have a non-empty resolved path and a non-empty value on that
  first option, one for each; the path of the project is the resolved path, its name is
  the name of that path, which is its last segment, and its time stamp is the value as
  an integer. What the parser does with a value that is not an integer is the matter
  of C1 and is left out here.
\<close>

theorem parser_keeps_stamped_entries:
  assumes "et_parse w (path_str f) = Tree r" and "parse_recent_projects w f = Inr ps"
  shows "map path ps = map (resolved_path w) (filter (emits w) (findall_entries r))
    \<and> map Project.name ps =
        map (\<lambda>e. path_name (Path_of (resolved_path w e))) (filter (emits w) (findall_entries r))
    \<and> map (\<lambda>p. Some (Inr (last_opened p))) ps =
        map (\<lambda>e. map_option py_int (timestamp_value e)) (filter (emits w) (findall_entries r))
    \<and> (\<forall>p\<in>set ps. \<forall>d s. path p = d @ ''/'' @ s \<and> CHR ''/'' \<notin> set s \<and> s \<noteq> [] \<and> s \<noteq> ''.''
          \<longrightarrow> Project.name p = s)"
proof -
  from assms have e: "parse_entries w (findall_entries r) = Inr ps"
    by (simp add: parse_recent_projects_def)
  have "Project.name p = s"
    if "p \<in> set ps" and "path p = d @ ''/'' @ s" and "CHR ''/'' \<notin> set s" and "s \<noteq> []"
      and "s \<noteq> ''.''" for p d s
  proof -
    have "Project.name p = path_name (Path_of (path p))"
      using e that(1) by (rule parse_entries_name)
    also have "\<dots> = s" unfolding that(2) using that(3-5) by (rule path_name_segment)
    finally show ?thesis .
  qed
  with parse_entries_Inr [OF e] show ?thesis by blast
qed

text \<open>The amended statement at work on the history of CLion: four of its five entries
  have a time stamp.\<close>

theorem parser_keeps_stamped_entries_witness:
  "et_parse w1 (path_str (history_file w1 clion ''CLion-2.1'')) = Tree clion_history
   \<and> parse_recent_projects w1 (history_file w1 clion ''CLion-2.1'') =
       Inr [project ''a'' 100, project ''b'' 50, project ''c'' 200, project ''gone'' 300]
   \<and> map (resolved_path w1) (filter (emits w1) (findall_entries clion_history)) =
       [''/home/u/a'', ''/home/u/b'', ''/home/u/c'', ''/home/u/gone'']
   \<and> map Project.name [project ''a'' 100, project ''b'' 50, project ''c'' 200, project ''gone'' 300] =
       map (\<lambda>e. path_name (Path_of (resolved_path w1 e)))
         (filter (emits w1) (findall_entries clion_history))
   \<and> path (project ''a'' 100) = ''/home/u'' @ ''/'' @ ''a''
   \<and> Project.name (project ''a'' 100) = ''a''"
proof -
  let ?ps = "[project ''a'' 100, project ''b'' 50, project ''c'' 200, project ''gone'' 300]"
  have 1: "et_parse w1 (path_str (history_file w1 clion ''CLion-2.1'')) = Tree clion_history"
    by code_simp
  have 2: "parse_recent_projects w1 (history_file w1 clion ''CLion-2.1'') = Inr ?ps"
    by code_simp
  have 3: "map path ?ps = [''/home/u/a'', ''/home/u/b'', ''/home/u/c'', ''/home/u/gone'']"
    by (simp add: project_def)
  have 4: "path (project ''a'' 100) = ''/home/u'' @ ''/'' @ ''a''" by (simp add: project_def)
  have 5: "CHR ''/'' \<notin> set ''a''" "''a'' \<noteq> []" "''a'' \<noteq> ''.''" by simp_all
  from parser_keeps_stamped_entries [OF 1 2]
  have "\<forall>p\<in>set ?ps. \<forall>d s. path p = d @ ''/'' @ s \<and> CHR ''/'' \<notin> set s \<and> s \<noteq> [] \<and> s \<noteq> ''.''
      \<longrightarrow> Project.name p = s"
    by blast
  then have "path (project ''a'' 100) = ''/home/u'' @ ''/'' @ ''a'' \<and> CHR ''/'' \<notin> set ''a''
      \<and> ''a'' \<noteq> [] \<and> ''a'' \<noteq> ''.'' \<longrightarrow> Project.name (project ''a'' 100) = ''a''"
    by (simp del: append.simps)
  with 4 5 have 6: "Project.name (project ''a'' 100) = ''a''" by blast
  from parser_keeps_stamped_entries [OF 1 2] 1 2 3 4 6 show ?thesis by simp
qed

text \<open>C5 as stated fails on an entry with two time stamp options of which the first has
  no value: the entry is selected, its resolved path is not empty, a time stamp option
  with the value \<^verbatim>\<open>100\<close> exists below it, and no project is returned.\<close>

theorem second_stamp_option_counterexample:
  "findall_entries (history [entry_two_options]) = [entry_two_options]
   \<and> resolved_path w_two_options entry_two_options = ''/home/u/a''
   \<and> stamp ''100'' \<in> set (descendants entry_two_options ''option'')
   \<and> get (stamp ''100'') ''name'' = Some ''projectOpenTimestamp''
   \<and> get (stamp ''100'') ''value'' = Some ''100''
   \<and> parse_recent_projects w_two_options
        (Path_of ''/home/u/.config/JetBrains/CLion-2.1/options/recentProjects.xml'') = Inr []"
  by code_simp

section \<open>Order and size of the result (C6)\<close>

text \<open>
  C6 says that for every query the result is sorted by \<^verbatim>\<open>last_opened\<close>, greatest
  first, that it never has more entries than the configured limit, and that the
  truncation keeps the highest-ranked entries. The handler truncates with the slice
  \<^verbatim>\<open>[:n]\<close> and does not look at the sign of \<open>n\<close>: for a negative limit the slice
  removes entries from the end, and what is left can be more than the limit. What holds
  (C6 as amended), for every query that is answered: the result is sorted by time stamp,
  greatest first; the merged pairs are those of the result together with those that
  were cut off, and no pair that was cut off is more recent than a pair of the result;
  for a limit \<open>n\<close> that is not negative the result has \<open>n\<close> entries, or all merged
  pairs when there are fewer, hence never more than \<open>n\<close>; for a negative limit it has
  all merged pairs but the last \<open>- n\<close>. Projects stamped 100, 50 and 200 come out as
  200, 100, 50 for the empty query.
\<close>

theorem results_sorted_and_bounded:
  assumes "on_event w self q = Inr items"
  shows "\<exists>pairs merged cut n.
     ranked w self q = Inr pairs \<and> items = map render pairs
     \<and> collect w q (editors self) = Inr merged
     \<and> py_int (item_limit (preferences self)) = Inr n
     \<and> sorted_wrt (\<lambda>a b. stamp_of b \<le> stamp_of a) pairs
     \<and> mset pairs + mset cut = mset merged
     \<and> (\<forall>x\<in>set pairs. \<forall>y\<in>set cut. stamp_of y \<le> stamp_of x)
     \<and> length items = sliced_length n (length merged)
     \<and> (0 \<le> n \<longrightarrow> length items \<le> nat n)"
proof -
  from assms obtain pairs where p: "ranked w self q = Inr pairs" "items = map render pairs"
    by (auto simp: on_event_def split: sum.splits)
  from p(1) obtain merged where m1: "collect w q (editors self) = Inr merged"
    by (cases "collect w q (editors self)") (simp_all add: ranked_def)
  with p(1) obtain n where m2: "py_int (item_limit (preferences self)) = Inr n"
    by (cases "py_int (item_limit (preferences self))") (simp_all add: ranked_def)
  from p(1) m1 m2 have m3: "pairs = slice_to n (sort_pairs merged)"
    by (simp add: ranked_def)
  obtain k where k: "pairs = take k (sort_pairs merged)"
    using slice_to_take [of n "sort_pairs merged"] m3 by auto
  let ?cut = "drop k (sort_pairs merged)"
  have s: "sorted_wrt (\<lambda>a b. stamp_of b \<le> stamp_of a) pairs"
    unfolding k by (intro sorted_wrt_take sorted_desc_sort_pairs)
  have "mset (take k (sort_pairs merged)) + mset (drop k (sort_pairs merged)) =
      mset (sort_pairs merged)"
    by (metis append_take_drop_id mset_append)
  then have u: "mset pairs + mset ?cut = mset merged"
    by (simp only: k mset_sort_pairs)
  have c: "\<forall>x\<in>set pairs. \<forall>y\<in>set ?cut. stamp_of y \<le> stamp_of x"
  proof (intro ballI)
    fix x y
    assume "x \<in> set pairs" and "y \<in> set ?cut"
    then have "x \<in> set (take k (sort_pairs merged))" "y \<in> set (drop k (sort_pairs merged))"
      by (simp_all only: k)
    with sorted_desc_sort_pairs show "stamp_of y \<le> stamp_of x"
      by (rule sorted_wrt_take_drop)
  qed
  have l: "length items = sliced_length n (length merged)"
    using length_slice_to_sliced [of n "sort_pairs merged"]
    by (simp add: p(2) m3 sort_pairs_def)
  have b: "0 \<le> n \<longrightarrow> length items \<le> nat n"
    by (simp add: l sliced_length_def)
  show ?thesis
    by (rule exI [of _ pairs], rule exI [of _ merged], rule exI [of _ ?cut], rule exI [of _ n])
      (intro conjI p m1 m2 s u c l b)
qed

text \<open>The example of C6, and the same query with the limit 2, which cuts off the
  project stamped 50.\<close>

theorem results_sorted_and_bounded_witness:
  "on_event w1 (listener ''2'' [clion]) '''' =
     Inr (map render [(clion, project ''c'' 200), (clion, project ''a'' 100)])
   \<and> py_int (item_limit (preferences (listener ''2'' [clion]))) = Inr 2
   \<and> collect w1 '''' (editors (listener ''2'' [clion])) =
       Inr [(clion, project ''a'' 100), (clion, project ''b'' 50), (clion, project ''c'' 200)]
   \<and> length (map render [(clion, project ''c'' 200), (clion, project ''a'' 100)]) \<le> nat 2
   \<and> sliced_length 2 3 = 2
   \<and> ranked w1 (listener ''10'' [clion]) '''' =
       Inr [(clion, project ''c'' 200), (clion, project ''a'' 100), (clion, project ''b'' 50)]
   \<and> map stamp_of [(clion, project ''c'' 200), (clion, project ''a'' 100), (clion, project ''b'' 50)] =
       [200, 100, 50]"
proof -
  let ?items = "map render [(clion, project ''c'' 200), (clion, project ''a'' 100)]"
  have 1: "on_event w1 (listener ''2'' [clion]) '''' = Inr ?items" by code_simp
  have 2: "py_int (item_limit (preferences (listener ''2'' [clion]))) = Inr 2" by code_simp
  have 3: "ranked w1 (listener ''10'' [clion]) '''' =
      Inr [(clion, project ''c'' 200), (clion, project ''a'' 100), (clion, project ''b'' 50)]"
    by code_simp
  have 4: "map stamp_of [(clion, project ''c'' 200), (clion, project ''a'' 100),
      (clion, project ''b'' 50)] = [200, 100, 50]"
    by (simp add: stamp_of_def project_def)
  have 5: "collect w1 '''' (editors (listener ''2'' [clion])) =
      Inr [(clion, project ''a'' 100), (clion, project ''b'' 50), (clion, project ''c'' 200)]"
    by code_simp
  have 6: "sliced_length 2 3 = 2" by (simp add: sliced_length_def)
  from results_sorted_and_bounded [OF 1] obtain n where
    n: "py_int (item_limit (preferences (listener ''2'' [clion]))) = Inr n"
      "0 \<le> n \<longrightarrow> length ?items \<le> nat n"
    by blast
  from n(1) 2 have "n = 2" by simp
  with n(2) have 7: "length ?items \<le> nat 2" by simp
  from 1 2 5 7 6 3 4 show ?thesis by (intro conjI)
qed

text \<open>C6 as stated fails: with the limit \<^verbatim>\<open>-1\<close> the query for everything is answered
  with two of the three projects of CLion, which is more than the limit.\<close>

theorem negative_limit_counterexample:
  "init w1 \<lparr>binaries = ''/usr/bin'', item_limit = ''-1''\<rparr> = Inr (listener ''-1'' [clion])
   \<and> py_int (item_limit (preferences (listener ''-1'' [clion]))) = Inr (- 1)
   \<and> on_event w1 (listener ''-1'' [clion]) '''' =
       Inr (map render [(clion, project ''c'' 200), (clion, project ''a'' 100)])
   \<and> \<not> int (length (map render [(clion, project ''c'' 200), (clion, project ''a'' 100)])) \<le> - 1"
  by code_simp

section \<open>Only projects that exist (C7)\<close>

text \<open>
  C7: whatever the query, every project in the result exists on the file system when the
  query is handled: the path shown with each item, which is the path of the project,
  exists. An entry of the history whose path does not exist is therefore in no result,
  well-formed as it may be.
\<close>

theorem results_exist_on_disk:
  assumes "on_event w self q = Inr items"
  shows "(\<forall>i\<in>set items. path_exists w (path_str (Path_of (description i))) = Some True)
    \<and> (\<exists>pairs. ranked w self q = Inr pairs \<and> items = map render pairs
          \<and> (\<forall>pair\<in>set pairs. path_exists w (path_str (Path_of (path (snd pair)))) = Some True))"
proof -
  from assms obtain pairs where p: "ranked w self q = Inr pairs" "items = map render pairs"
    by (auto simp: on_event_def split: sum.splits)
  from p(1) obtain merged n where m: "collect w q (editors self) = Inr merged"
    "pairs = slice_to n (sort_pairs merged)"
    by (auto simp: ranked_def split: sum.splits)
  have sub: "set pairs \<subseteq> set merged"
    using set_slice_to [of n "sort_pairs merged"] by (simp add: m(2) set_sort_pairs)
  have e: "path_exists w (path_str (Path_of (path (snd pair)))) = Some True"
    if "pair \<in> set pairs" for pair
    using collect_exists [OF m(1)] sub that by blast
  then have "\<forall>i\<in>set items. path_exists w (path_str (Path_of (description i))) = Some True"
    by (auto simp: p(2) render_def)
  with p e show ?thesis by blast
qed

text \<open>In the history of CLion the project \<^verbatim>\<open>gone\<close> is the most recent one and its path
  does not exist: it is not in the result.\<close>

theorem results_exist_on_disk_witness:
  "list_projects w1 clion =
     Inr [project ''a'' 100, project ''b'' 50, project ''c'' 200, project ''gone'' 300]
   \<and> path_exists w1 (path_str (Path_of (path (project ''gone'' 300)))) = Some False
   \<and> on_event w1 (listener ''10'' [clion]) '''' =
       Inr (map render [(clion, project ''c'' 200), (clion, project ''a'' 100), (clion, project ''b'' 50)])
   \<and> path_exists w1 (path_str (Path_of (description (render (clion, project ''c'' 200))))) =
       Some True"
proof -
  let ?items = "map render [(clion, project ''c'' 200), (clion, project ''a'' 100),
    (clion, project ''b'' 50)]"
  have 1: "on_event w1 (listener ''10'' [clion]) '''' = Inr ?items" by code_simp
  have 2: "list_projects w1 clion =
      Inr [project ''a'' 100, project ''b'' 50, project ''c'' 200, project ''gone'' 300]"
    by code_simp
  have 3: "path_exists w1 (path_str (Path_of (path (project ''gone'' 300)))) = Some False"
    by code_simp
  from results_exist_on_disk [OF 1]
  have "\<forall>i\<in>set ?items. path_exists w1 (path_str (Path_of (description i))) = Some True"
    by blast
  then have "path_exists w1 (path_str (Path_of (description (render (clion, project ''c'' 200))))) =
      Some True"
    by simp
  with 1 2 3 show ?thesis by blast
qed

section \<open>The order in which the editors are scanned (C8)\<close>

text \<open>
  C8 says that the final ranking does not depend on which editor is scanned first. The
  sort is stable and its key is the time stamp alone, so two projects with the same time
  stamp stay in the order in which they were merged, which is the order of the scan.
  What holds (C8 as amended): when a query is answered, it is answered for every other
  order of the same editors, with the same sequence of time stamps; and with the same
  sequence of results when no two merged projects have the same time stamp.
\<close>

theorem ranking_and_scan_order:
  assumes "mset es' = mset es"
    and "ranked w \<lparr>preferences = prefs, editors = es\<rparr> q = Inr pairs"
  shows "\<exists>pairs' merged.
     ranked w \<lparr>preferences = prefs, editors = es'\<rparr> q = Inr pairs'
     \<and> collect w q es = Inr merged
     \<and> map stamp_of pairs' = map stamp_of pairs
     \<and> (distinct (map stamp_of merged) \<longrightarrow>
          pairs' = pairs
          \<and> on_event w \<lparr>preferences = prefs, editors = es'\<rparr> q =
              on_event w \<lparr>preferences = prefs, editors = es\<rparr> q)"
proof -
  from assms(2) obtain merged where m1: "collect w q es = Inr merged"
    by (cases "collect w q es") (simp_all add: ranked_def)
  with assms(2) obtain n where m2: "py_int (item_limit prefs) = Inr n"
    by (cases "py_int (item_limit prefs)") (simp_all add: ranked_def)
  from assms(2) m1 m2 have m3: "pairs = slice_to n (sort_pairs merged)"
    by (simp add: ranked_def)
  from collect_perm [OF m1 assms(1)] obtain merged' where
    m': "collect w q es' = Inr merged'" "mset merged' = mset merged" by blast
  let ?pairs' = "slice_to n (sort_pairs merged')"
  have r': "ranked w \<lparr>preferences = prefs, editors = es'\<rparr> q = Inr ?pairs'"
    using m' m2 by (simp add: ranked_def)
  have "map stamp_of ?pairs' = slice_to n (map stamp_of (sort_pairs merged'))"
    by (rule map_slice_to)
  also have "\<dots> = slice_to n (map stamp_of (sort_pairs merged))"
    by (rule arg_cong [OF sort_pairs_perm_stamps [OF m'(2)]])
  also have "\<dots> = map stamp_of pairs"
    by (simp only: m3 map_slice_to)
  finally have s: "map stamp_of ?pairs' = map stamp_of pairs" .
  have d: "distinct (map stamp_of merged) \<longrightarrow>
      ?pairs' = pairs
      \<and> on_event w \<lparr>preferences = prefs, editors = es'\<rparr> q =
          on_event w \<lparr>preferences = prefs, editors = es\<rparr> q"
  proof
    assume "distinct (map stamp_of merged)"
    with m'(2) have "sort_pairs merged' = sort_pairs merged"
      by (rule sort_pairs_perm_distinct)
    then have e: "?pairs' = pairs" by (simp only: m3)
    from r' assms(2) e
    have "on_event w \<lparr>preferences = prefs, editors = es'\<rparr> q =
          on_event w \<lparr>preferences = prefs, editors = es\<rparr> q"
      by (simp only: on_event_def)
    with e show "?pairs' = pairs
      \<and> on_event w \<lparr>preferences = prefs, editors = es'\<rparr> q =
          on_event w \<lparr>preferences = prefs, editors = es\<rparr> q" ..
  qed
  show ?thesis
    by (rule exI [of _ ?pairs'], rule exI [of _ merged]) (intro conjI r' m1 s d)
qed

text \<open>The amended statement at work: the projects of CLion and of the editor \<^verbatim>\<open>X\<close> have
  four different time stamps, and both orders give the same result.\<close>

theorem ranking_and_scan_order_witness:
  "mset [editor_x, clion] = mset [clion, editor_x]
   \<and> ranked w1 (listener ''10'' [clion, editor_x]) '''' =
       Inr [(clion, project ''c'' 200), (clion, project ''a'' 100), (clion, project ''b'' 50),
            (editor_x, \<lparr>Project.name = ''x'', path = ''/srv/x'', last_opened = 7\<rparr>)]
   \<and> collect w1 '''' [clion, editor_x] =
       Inr [(clion, project ''a'' 100), (clion, project ''b'' 50), (clion, project ''c'' 200),
            (editor_x, \<lparr>Project.name = ''x'', path = ''/srv/x'', last_opened = 7\<rparr>)]
   \<and> ranked w1 (listener ''10'' [editor_x, clion]) '''' =
       ranked w1 (listener ''10'' [clion, editor_x]) ''''"
proof -
  let ?x = "(editor_x, \<lparr>Project.name = ''x'', path = ''/srv/x'', last_opened = 7\<rparr>)"
  let ?pairs = "[(clion, project ''c'' 200), (clion, project ''a'' 100), (clion, project ''b'' 50), ?x]"
  let ?merged = "[(clion, project ''a'' 100), (clion, project ''b'' 50), (clion, project ''c'' 200), ?x]"
  let ?prefs = "\<lparr>binaries = ''/usr/bin'', item_limit = ''10''\<rparr>"
  have 1: "mset [editor_x, clion] = mset [clion, editor_x]" by simp
  have 2: "ranked w1 (listener ''10'' [clion, editor_x]) '''' = Inr ?pairs" by code_simp
  have 3: "collect w1 '''' [clion, editor_x] = Inr ?merged" by code_simp
  have 4: "distinct (map stamp_of ?merged)" by (simp add: stamp_of_def project_def)
  from 2 have r2: "ranked w1 \<lparr>preferences = ?prefs, editors = [clion, editor_x]\<rparr> '''' = Inr ?pairs"
    by (simp only: listener_def)
  from ranking_and_scan_order [OF 1 r2] obtain pairs' merged where
    o: "ranked w1 \<lparr>preferences = ?prefs, editors = [editor_x, clion]\<rparr> '''' = Inr pairs'"
      "collect w1 '''' [clion, editor_x] = Inr merged"
      "distinct (map stamp_of merged) \<longrightarrow> pairs' = ?pairs"
    by blast
  from o(2) 3 have "merged = ?merged" by (simp only: sum.inject)
  with o(3) 4 have "pairs' = ?pairs" by (simp only:)
  with o(1) have "ranked w1 \<lparr>preferences = ?prefs, editors = [editor_x, clion]\<rparr> '''' = Inr ?pairs"
    by (simp only:)
  with 2 have 5: "ranked w1 (listener ''10'' [editor_x, clion]) '''' =
      ranked w1 (listener ''10'' [clion, editor_x]) ''''"
    by (simp only: listener_def)
  from 1 2 3 5 show ?thesis by (intro conjI)
qed

text \<open>C8 as stated fails: the project \<^verbatim>\<open>a\<close> of CLion and the project \<^verbatim>\<open>d\<close> of PyCharm
  have the time stamp 100, and the one whose editor is scanned first comes first.\<close>

theorem scan_order_counterexample:
  "init w2 \<lparr>binaries = ''/usr/bin'', item_limit = ''10''\<rparr> = Inr (listener ''10'' [clion, pycharm])
   \<and> on_event w2 (listener ''10'' [clion, pycharm]) '''' =
       Inr (map render [(clion, project ''c'' 200), (clion, project ''a'' 100),
                        (pycharm, project ''d'' 100), (clion, project ''b'' 50)])
   \<and> on_event w2 (listener ''10'' [pycharm, clion]) '''' =
       Inr (map render [(clion, project ''c'' 200), (pycharm, project ''d'' 100),
                        (clion, project ''a'' 100), (clion, project ''b'' 50)])
   \<and> on_event w2 (listener ''10'' [pycharm, clion]) '''' \<noteq>
       on_event w2 (listener ''10'' [clion, pycharm]) ''''"
  by code_simp

section \<open>The binary resolver (C9)\<close>

text \<open>
  C9 says that for every configured directory the resolver returns the absolute path of
  the first candidate name that is a regular file in it, and \<^verbatim>\<open>None\<close> when there is
  none. The resolver returns the string of the path \<^verbatim>\<open>directory/name\<close> after
  \<^verbatim>\<open>expanduser\<close>, which nothing makes absolute; \<^verbatim>\<open>expanduser\<close> raises for the home of
  an unknown user, and \<^verbatim>\<open>is_file\<close> raises where \<^verbatim>\<open>stat\<close> fails otherwise than by the
  absence of the file. What holds (C9 as amended): whenever the resolver returns, its
  result is the string of the expanded path of the first name of the list, in its
  order, whose expanded path is a regular file, whether or not a later name has one too,
  and \<^verbatim>\<open>None\<close> when no name has one; it returns when neither the home expansion nor the
  file test raises for a candidate; for a directory that is written as an absolute path
  the expansion does not raise and every path that is returned is absolute; and the
  editors of the listener are those of the registry, in its order, whose binary is not
  \<^verbatim>\<open>None\<close>.
\<close>

theorem resolver_returns_first_match:
  "(find_binary w bp bins = Inr r \<longrightarrow>
      r = map_option (binary_path w bp) (List.find (\<lambda>b. is_binary w bp b = Some True) bins))
   \<and> ((\<forall>b\<in>set bins. is_binary w bp b \<noteq> None) \<longrightarrow> (\<exists>r'. find_binary w bp bins = Inr r'))
   \<and> (take 1 bp' = ''/'' \<longrightarrow>
        candidate w bp' b' = Inr (Path_of (bp' @ ''/'' @ b'))
        \<and> (\<forall>s. find_binary w bp' bins' = Inr (Some s) \<longrightarrow> take 1 s = ''/''))
   \<and> (init w prefs = Inr self \<longrightarrow>
        (\<forall>e\<in>set (editors self). binary e \<noteq> None)
        \<and> map Editor.name (editors self) =
            map fst (filter (\<lambda>(nm, ic, pre, bins). find_binary w (binaries prefs) bins \<noteq> Inr None)
              registry))"
proof (intro conjI impI allI)
  assume "find_binary w bp bins = Inr r"
  then show "r = map_option (binary_path w bp)
      (List.find (\<lambda>b. is_binary w bp b = Some True) bins)"
    by (rule find_binary_Inr)
next
  assume "\<forall>b\<in>set bins. is_binary w bp b \<noteq> None"
  then show "\<exists>r'. find_binary w bp bins = Inr r'" by (rule find_binary_returns)
next
  assume "take 1 bp' = ''/''"
  then show "candidate w bp' b' = Inr (Path_of (bp' @ ''/'' @ b'))"
    by (rule candidate_absolute(1))
next
  fix s
  assume a: "take 1 bp' = ''/''" and "find_binary w bp' bins' = Inr (Some s)"
  from find_binary_Some [OF this(2)] obtain b where "s = binary_path w bp' b" by blast
  then have "s = path_str (Path_of (bp' @ ''/'' @ b))"
    by (simp add: binary_path_def candidate_absolute(1) [OF a])
  with candidate_absolute(2) [OF a] show "take 1 s = ''/''" by simp
next
  assume i: "init w prefs = Inr self"
  then obtain es where es: "make_editors w (binaries prefs) registry = Inr es"
    "editors self = filter (\<lambda>e. binary e \<noteq> None) es"
    by (auto simp: init_def split: sum.splits)
  show "\<forall>e\<in>set (editors self). binary e \<noteq> None" by (simp add: es(2))
  show "map Editor.name (editors self) =
      map fst (filter (\<lambda>(nm, ic, pre, bins). find_binary w (binaries prefs) bins \<noteq> Inr None)
        registry)"
    unfolding es(2) using es(1) by (rule make_editors_kept)
qed

text \<open>The amended statement at work: both \<^verbatim>\<open>clion\<close> and \<^verbatim>\<open>clion-eap\<close> are files of
  \<^verbatim>\<open>/usr/bin\<close>, and the first of the list is returned; no name of GoLand is a file, and
  CLion is the only editor of the listener.\<close>

theorem resolver_returns_first_match_witness:
  "is_binary w1 ''/usr/bin'' ''clion'' = Some True
   \<and> is_binary w1 ''/usr/bin'' ''clion-eap'' = Some True
   \<and> binary_path w1 ''/usr/bin'' ''clion'' = ''/usr/bin/clion''
   \<and> find_binary w1 ''/usr/bin'' [''clion'', ''clion-eap''] = Inr (Some ''/usr/bin/clion'')
   \<and> find_binary w1 ''/usr/bin'' [''clion-eap'', ''clion''] = Inr (Some ''/usr/bin/clion-eap'')
   \<and> is_binary w1 ''/usr/bin'' ''goland'' = Some False
   \<and> is_binary w1 ''/usr/bin'' ''goland-eap'' = Some False
   \<and> find_binary w1 ''/usr/bin'' [''goland'', ''goland-eap''] = Inr None
   \<and> init w1 \<lparr>binaries = ''/usr/bin'', item_limit = ''10''\<rparr> = Inr (listener ''10'' [clion])
   \<and> map Editor.name (editors (listener ''10'' [clion])) = [''CLion'']
   \<and> take 1 ''/usr/bin'' = ''/'' \<and> take 1 ''/usr/bin/clion'' = ''/''
   \<and> binary clion \<noteq> None"
proof -
  have 1: "is_binary w1 ''/usr/bin'' ''clion'' = Some True"
    "is_binary w1 ''/usr/bin'' ''clion-eap'' = Some True" by code_simp+
  have 2: "binary_path w1 ''/usr/bin'' ''clion'' = ''/usr/bin/clion''" by code_simp
  have 3: "is_binary w1 ''/usr/bin'' ''goland'' = Some False"
    "is_binary w1 ''/usr/bin'' ''goland-eap'' = Some False" by code_simp+
  have a: "\<forall>b\<in>set [''clion'', ''clion-eap'']. is_binary w1 ''/usr/bin'' b \<noteq> None"
    using 1 by auto
  from resolver_returns_first_match
    [where w = w1 and bp = "''/usr/bin''" and bins = "[''clion'', ''clion-eap'']"] a
  obtain r where r: "find_binary w1 ''/usr/bin'' [''clion'', ''clion-eap''] = Inr r" by blast
  from resolver_returns_first_match
    [where w = w1 and bp = "''/usr/bin''" and bins = "[''clion'', ''clion-eap'']" and r = r] r
  have "r = map_option (binary_path w1 ''/usr/bin'')
      (List.find (\<lambda>b. is_binary w1 ''/usr/bin'' b = Some True) [''clion'', ''clion-eap''])"
    by blast
  then have "r = Some ''/usr/bin/clion''" by (simp add: 1 2)
  with r have 6: "find_binary w1 ''/usr/bin'' [''clion'', ''clion-eap''] = Inr (Some ''/usr/bin/clion'')"
    by simp
  have 7: "find_binary w1 ''/usr/bin'' [''clion-eap'', ''clion''] = Inr (Some ''/usr/bin/clion-eap'')"
    by code_simp
  have 8: "find_binary w1 ''/usr/bin'' [''goland'', ''goland-eap''] = Inr None" by code_simp
  have 9: "init w1 \<lparr>binaries = ''/usr/bin'', item_limit = ''10''\<rparr> = Inr (listener ''10'' [clion])"
    by code_simp
  have 10: "map Editor.name (editors (listener ''10'' [clion])) = [''CLion'']" by code_simp
  have 11: "take 1 ''/usr/bin'' = ''/''" by simp
  from resolver_returns_first_match
    [where w = w1 and bp' = "''/usr/bin''" and bins' = "[''clion'', ''clion-eap'']"] 11
  have "\<forall>s. find_binary w1 ''/usr/bin'' [''clion'', ''clion-eap''] = Inr (Some s) \<longrightarrow> take 1 s = ''/''"
    by blast
  with 6 have 12: "take 1 ''/usr/bin/clion'' = ''/''" by blast
  from resolver_returns_first_match
    [where w = w1 and prefs = "\<lparr>binaries = ''/usr/bin'', item_limit = ''10''\<rparr>"
      and self = "listener ''10'' [clion]"] 9
  have "\<forall>e\<in>set (editors (listener ''10'' [clion])). binary e \<noteq> None" by blast
  then have 13: "binary clion \<noteq> None" by (simp add: listener_def)
  from 1 2 3 6 7 8 9 10 11 12 13 show ?thesis by (intro conjI)
qed

text \<open>C9 as stated fails: for the directory \<^verbatim>\<open>bin\<close>, relative to the working directory
  of the process, the resolver returns the relative path \<^verbatim>\<open>bin/clion\<close>; for
  \<^verbatim>\<open>~nobody/bin\<close>, where no user \<^verbatim>\<open>nobody\<close> exists, it raises \<^verbatim>\<open>RuntimeError\<close>; and
  for a directory with a name of 300 letters it raises \<^verbatim>\<open>OSError\<close>; in both it returns
  nothing, not \<^verbatim>\<open>None\<close>.\<close>

theorem relative_directory_counterexample:
  "find_binary w1 ''bin'' [''clion'', ''clion-eap''] = Inr (Some ''bin/clion'')
   \<and> take 1 ''bin/clion'' \<noteq> ''/''
   \<and> find_binary w1 ''~nobody/bin'' [''clion'', ''clion-eap''] = Inl RuntimeError
   \<and> find_binary w1 long_name [''clion'', ''clion-eap''] = Inl OSError"
  by code_simp

section \<open>Projects with the same time stamp (C10)\<close>

text \<open>
  C10: the results that have the same time stamp are in the order in which they were
  merged before the sort. The merged list is the concatenation, in the order of the
  editors of the listener, of the pairs of each editor; the pairs of one editor are its
  projects in the order of the parser, which is the order of the history file, those
  dropped that do not exist or do not match; and the editors of the listener are in
  the order of the registry. For every time stamp the results of that time stamp are a
  front part of the merged pairs of that time stamp. The handler is a function of
  the query, the listener and the surroundings, so that the same query in the same
  surroundings gives the same result.
\<close>

theorem ties_keep_merge_order:
  assumes "ranked w self q = Inr pairs"
  shows "\<exists>merged.
     collect w q (editors self) = Inr merged
     \<and> merged = concat (map (scanned w q) (editors self))
     \<and> (\<forall>t. prefix (with_stamp t pairs) (with_stamp t merged))
     \<and> (\<forall>e\<in>set (editors self). \<exists>projects.
           list_projects w e = Inr projects
           \<and> scanned w q e =
               map (Pair e) (filter (\<lambda>p. re_found w q (Project.name p)) (existing w projects)))
     \<and> (init w prefs = Inr self \<longrightarrow> subseq (map Editor.name (editors self)) (map fst registry))"
proof -
  from assms obtain merged where m1: "collect w q (editors self) = Inr merged"
    by (cases "collect w q (editors self)") (simp_all add: ranked_def)
  with assms obtain n where m2: "py_int (item_limit (preferences self)) = Inr n"
    by (cases "py_int (item_limit (preferences self))") (simp_all add: ranked_def)
  from assms m1 m2 have m3: "pairs = slice_to n (sort_pairs merged)"
    by (simp add: ranked_def)
  from m1 have c: "merged = concat (map (scanned w q) (editors self))"
    by (rule collect_Inr_concat)
  obtain k where k: "pairs = take k (sort_pairs merged)"
    using slice_to_take [of n "sort_pairs merged"] m3 by auto
  have p: "\<forall>t. prefix (with_stamp t pairs) (with_stamp t merged)"
  proof
    fix t
    have "prefix (with_stamp t (take k (sort_pairs merged))) (with_stamp t (sort_pairs merged))"
      unfolding with_stamp_def by (rule prefix_filter_take)
    then show "prefix (with_stamp t pairs) (with_stamp t merged)"
      by (simp only: k with_stamp_sort_pairs)
  qed
  have e: "\<forall>e\<in>set (editors self). \<exists>projects.
      list_projects w e = Inr projects
      \<and> scanned w q e =
          map (Pair e) (filter (\<lambda>p. re_found w q (Project.name p)) (existing w projects))"
  proof
    fix e assume "e \<in> set (editors self)"
    with m1 obtain r where r: "scan w q e = Inr r" by (auto simp: collect_Inr_iff)
    from scan_Inr [OF r] r show "\<exists>projects.
      list_projects w e = Inr projects
      \<and> scanned w q e =
          map (Pair e) (filter (\<lambda>p. re_found w q (Project.name p)) (existing w projects))"
      by (simp add: scanned_def)
  qed
  have i: "init w prefs = Inr self \<longrightarrow> subseq (map Editor.name (editors self)) (map fst registry)"
  proof
    assume "init w prefs = Inr self"
    then obtain es where es: "make_editors w (binaries prefs) registry = Inr es"
      "editors self = filter (\<lambda>e. binary e \<noteq> None) es"
      by (auto simp: init_def split: sum.splits)
    have "map Editor.name (editors self) =
        map fst (filter (\<lambda>(nm, ic, pre, bins). find_binary w (binaries prefs) bins \<noteq> Inr None)
          registry)"
      unfolding es(2) using es(1) by (rule make_editors_kept)
    then show "subseq (map Editor.name (editors self)) (map fst registry)"
      by (simp only: subseq_map subseq_filter_left)
  qed
  show ?thesis
    by (rule exI [of _ merged]) (intro conjI m1 c p e i)
qed

text \<open>With CLion and PyCharm installed, the project \<^verbatim>\<open>a\<close> of CLion and the project
  \<^verbatim>\<open>d\<close> of PyCharm have the time stamp 100, and \<^verbatim>\<open>a\<close> comes first, as CLion does in the
  registry.\<close>

theorem ties_keep_merge_order_witness:
  "init w2 \<lparr>binaries = ''/usr/bin'', item_limit = ''10''\<rparr> = Inr (listener ''10'' [clion, pycharm])
   \<and> ranked w2 (listener ''10'' [clion, pycharm]) '''' =
       Inr [(clion, project ''c'' 200), (clion, project ''a'' 100),
            (pycharm, project ''d'' 100), (clion, project ''b'' 50)]
   \<and> collect w2 '''' (editors (listener ''10'' [clion, pycharm])) =
       Inr [(clion, project ''a'' 100), (clion, project ''b'' 50), (clion, project ''c'' 200),
            (pycharm, project ''d'' 100)]
   \<and> with_stamp 100 [(clion, project ''c'' 200), (clion, project ''a'' 100),
        (pycharm, project ''d'' 100), (clion, project ''b'' 50)] =
       [(clion, project ''a'' 100), (pycharm, project ''d'' 100)]
   \<and> prefix [(clion, project ''a'' 100), (pycharm, project ''d'' 100)]
       (with_stamp 100 [(clion, project ''a'' 100), (clion, project ''b'' 50),
          (clion, project ''c'' 200), (pycharm, project ''d'' 100)])
   \<and> subseq (map Editor.name (editors (listener ''10'' [clion, pycharm]))) (map fst registry)"
proof -
  let ?pairs = "[(clion, project ''c'' 200), (clion, project ''a'' 100),
    (pycharm, project ''d'' 100), (clion, project ''b'' 50)]"
  let ?merged = "[(clion, project ''a'' 100), (clion, project ''b'' 50),
    (clion, project ''c'' 200), (pycharm, project ''d'' 100)]"
  have 1: "init w2 \<lparr>binaries = ''/usr/bin'', item_limit = ''10''\<rparr> =
      Inr (listener ''10'' [clion, pycharm])" by code_simp
  have 2: "ranked w2 (listener ''10'' [clion, pycharm]) '''' = Inr ?pairs" by code_simp
  have 3: "collect w2 '''' (editors (listener ''10'' [clion, pycharm])) = Inr ?merged"
    by code_simp
  have 4: "with_stamp 100 ?pairs = [(clion, project ''a'' 100), (pycharm, project ''d'' 100)]"
    by (simp add: with_stamp_def stamp_of_def project_def)
  from ties_keep_merge_order [OF 2, of "\<lparr>binaries = ''/usr/bin'', item_limit = ''10''\<rparr>"]
  obtain merged where o:
    "collect w2 '''' (editors (listener ''10'' [clion, pycharm])) = Inr merged"
    "\<forall>t. prefix (with_stamp t ?pairs) (with_stamp t merged)"
    "init w2 \<lparr>binaries = ''/usr/bin'', item_limit = ''10''\<rparr> = Inr (listener ''10'' [clion, pycharm])
       \<longrightarrow> subseq (map Editor.name (editors (listener ''10'' [clion, pycharm]))) (map fst registry)"
    by blast
  from o(1) 3 have "merged = ?merged" by (simp only: sum.inject)
  with o(2) have "prefix (with_stamp 100 ?pairs) (with_stamp 100 ?merged)" by blast
  with 4 have 5: "prefix [(clion, project ''a'' 100), (pycharm, project ''d'' 100)]
      (with_stamp 100 ?merged)" by (simp only:)
  from o(3) 1
  have 6: "subseq (map Editor.name (editors (listener ''10'' [clion, pycharm]))) (map fst registry)"
    by blast
  from 1 2 3 4 5 6 show ?thesis by (intro conjI)
qed

end
